theory Spec2Isabelle
  imports Main "HOL-Library.Word"
begin

section \<open>LifeFlow: the data model of the migrations\<close>

text \<open>
  The embedding follows the SQL migrations under \<^verbatim>\<open>supabase/migrations\<close> and the client
  calls in the dashboard and contact-request components. A table is the list of its rows,
  a column that is \<^verbatim>\<open>NOT NULL\<close> has its plain type and a nullable column an
  \<open>option\<close> type (\<open>None\<close> is SQL's NULL). \<^verbatim>\<open>auth.uid()\<close> and \<^verbatim>\<open>now()\<close> are
  parameters of every operation: the caller's identity (NULL for an anonymous caller) and
  the transaction's timestamp.
\<close>

type_synonym uuid = "128 word"

text \<open>A \<^verbatim>\<open>timestamp with time zone\<close> is a count of microseconds.\<close>

type_synonym timestamptz = int

definition interval_hours :: "int \<Rightarrow> int" where
  "interval_hours h = h * 3600000000"

text \<open>SQLSTATE classes raised by the statements modelled here, and the client's own early return.\<close>

datatype pg_error =
    CardinalityViolation
  | InvalidTextRepresentation
  | UniqueViolation
  | ForeignKeyViolation
  | CheckViolation
  | RowSecurityViolation
  | AuthenticationRequired

text \<open>\<^verbatim>\<open>CREATE TYPE public.blood_group AS ENUM ('O+', 'O-', 'A+', 'A-', 'B+', 'B-', 'AB+', 'AB-')\<close>\<close>

datatype blood_group = O_pos | O_neg | A_pos | A_neg | B_pos | B_neg | AB_pos | AB_neg

definition blood_group_in :: "string \<Rightarrow> blood_group option" where
  "blood_group_in s =
     (if s = ''O+'' then Some O_pos else if s = ''O-'' then Some O_neg
      else if s = ''A+'' then Some A_pos else if s = ''A-'' then Some A_neg
      else if s = ''B+'' then Some B_pos else if s = ''B-'' then Some B_neg
      else if s = ''AB+'' then Some AB_pos else if s = ''AB-'' then Some AB_neg
      else None)"

text \<open>\<^verbatim>\<open>CREATE TYPE public.request_status AS ENUM ('open', 'claimed', 'fulfilled', 'expired')\<close>\<close>

datatype request_status = Open | Claimed | Fulfilled | Expired

text \<open>The enum's input function: the labels of the type and nothing else.\<close>

definition request_status_in :: "string \<Rightarrow> request_status option" where
  "request_status_in s =
     (if s = ''open'' then Some Open else if s = ''claimed'' then Some Claimed
      else if s = ''fulfilled'' then Some Fulfilled else if s = ''expired'' then Some Expired
      else None)"

record profile =
  p_id :: uuid
  p_user_id :: uuid
  p_full_name :: string
  p_phone :: string
  p_district :: string
  p_state :: string
  p_blood_group :: blood_group
  p_created_at :: timestamptz
  p_updated_at :: timestamptz
  p_is_confirmed :: "bool option"

record request =
  r_id :: uuid
  r_requester_id :: uuid
  r_blood_group :: blood_group
  r_requester_name :: string
  r_requester_phone :: string
  r_district :: string
  r_state :: string
  r_location_description :: "string option"
  r_message :: "string option"
  r_status :: request_status
  r_expires_at :: timestamptz
  r_created_at :: timestamptz
  r_updated_at :: timestamptz

record claim =
  c_id :: uuid
  c_request_id :: uuid
  c_donor_id :: uuid
  c_claimed_at :: timestamptz

text \<open>
  \<^verbatim>\<open>contact_requests.status\<close> is \<^verbatim>\<open>TEXT NOT NULL DEFAULT 'pending'\<close> under a
  \<^verbatim>\<open>CHECK (status IN ('pending', 'approved', 'declined', 'expired'))\<close>.
\<close>

record contact_request =
  cr_id :: uuid
  cr_request_id :: uuid
  cr_donor_id :: uuid
  cr_requester_id :: uuid
  cr_status :: string
  cr_message :: "string option"
  cr_created_at :: timestamptz
  cr_updated_at :: timestamptz
  cr_expires_at :: timestamptz

definition contact_status_check :: "string \<Rightarrow> bool" where
  "contact_status_check s = (s \<in> set [''pending'', ''approved'', ''declined'', ''expired''])"

text \<open>The \<^verbatim>\<open>RETURNS TABLE\<close> row of \<^verbatim>\<open>get_safe_requests\<close>: the phone column is nullable.\<close>

record safe_request =
  s_id :: uuid
  s_blood_group :: blood_group
  s_requester_id :: uuid
  s_requester_name :: string
  s_requester_phone :: "string option"
  s_district :: string
  s_state :: string
  s_location_description :: "string option"
  s_message :: "string option"
  s_status :: request_status
  s_expires_at :: timestamptz
  s_created_at :: timestamptz
  s_updated_at :: timestamptz

text \<open>
  The claims table was created twice: by the first migration with
  \<^verbatim>\<open>UNIQUE(request_id, donor_id)\<close>, and again by migration 20250925113624 after a
  \<^verbatim>\<open>DROP TABLE IF EXISTS public.claims\<close>, without that constraint. The constraint set
  in force is part of the database state.
\<close>

record claims_schema =
  unique_request_donor :: bool
  donor_references_profiles :: bool

record db =
  auth_users :: "uuid list"
  profiles :: "profile list"
  requests :: "request list"
  claims :: "claim list"
  claims_ddl :: claims_schema
  contact_requests :: "contact_request list"

section \<open>SQL's three-valued logic\<close>

type_synonym sql_bool = "bool option"

definition sql_eq :: "'a option \<Rightarrow> 'a option \<Rightarrow> sql_bool" where
  "sql_eq a b = (case a of None \<Rightarrow> None | Some x \<Rightarrow> (case b of None \<Rightarrow> None | Some y \<Rightarrow> Some (x = y)))"

definition sql_ne :: "'a option \<Rightarrow> 'a option \<Rightarrow> sql_bool" where
  "sql_ne a b = (case a of None \<Rightarrow> None | Some x \<Rightarrow> (case b of None \<Rightarrow> None | Some y \<Rightarrow> Some (x \<noteq> y)))"

definition sql_gt :: "int option \<Rightarrow> int option \<Rightarrow> sql_bool" where
  "sql_gt a b = (case a of None \<Rightarrow> None | Some x \<Rightarrow> (case b of None \<Rightarrow> None | Some y \<Rightarrow> Some (x > y)))"

definition sql_le :: "int option \<Rightarrow> int option \<Rightarrow> sql_bool" where
  "sql_le a b = (case a of None \<Rightarrow> None | Some x \<Rightarrow> (case b of None \<Rightarrow> None | Some y \<Rightarrow> Some (x \<le> y)))"

fun sql_and :: "sql_bool \<Rightarrow> sql_bool \<Rightarrow> sql_bool" where
  "sql_and (Some False) b = Some False"
| "sql_and a (Some False) = Some False"
| "sql_and (Some True) (Some True) = Some True"
| "sql_and a b = None"

fun sql_or :: "sql_bool \<Rightarrow> sql_bool \<Rightarrow> sql_bool" where
  "sql_or (Some True) b = Some True"
| "sql_or a (Some True) = Some True"
| "sql_or (Some False) (Some False) = Some False"
| "sql_or a b = None"

text \<open>A \<^verbatim>\<open>WHERE\<close>, a \<^verbatim>\<open>CASE WHEN\<close> and a policy keep a row only when the condition is TRUE.\<close>

definition is_true :: "sql_bool \<Rightarrow> bool" where
  "is_true b = (b = Some True)"

text \<open>
  A scalar subquery: no row is NULL, one row is its value, more rows raise
  "more than one row returned by a subquery used as an expression". The column
  \<^verbatim>\<open>profiles.user_id\<close> is \<^verbatim>\<open>UNIQUE\<close>; the theorems below that need it say so as
  \<open>distinct (map p_user_id (profiles d))\<close>.
\<close>

definition scalar_subquery :: "'a list \<Rightarrow> pg_error + 'a option" where
  "scalar_subquery rows =
     (case rows of [] \<Rightarrow> Inr None | [x] \<Rightarrow> Inr (Some x) | x # y # zs \<Rightarrow> Inl CardinalityViolation)"

text \<open>\<^verbatim>\<open>(SELECT profiles.district FROM profiles WHERE profiles.user_id = auth.uid())\<close>\<close>

definition caller_district :: "uuid option \<Rightarrow> profile list \<Rightarrow> pg_error + string option" where
  "caller_district uid ps =
     scalar_subquery (map p_district (filter (\<lambda>p. is_true (sql_eq (Some (p_user_id p)) uid)) ps))"

text \<open>\<^verbatim>\<open>(SELECT profiles.blood_group FROM profiles WHERE profiles.user_id = auth.uid())\<close>\<close>

definition caller_blood_group :: "uuid option \<Rightarrow> profile list \<Rightarrow> pg_error + blood_group option" where
  "caller_blood_group uid ps =
     scalar_subquery (map p_blood_group (filter (\<lambda>p. is_true (sql_eq (Some (p_user_id p)) uid)) ps))"

section \<open>Reading requests\<close>

text \<open>
  The phone column of \<^verbatim>\<open>get_safe_requests\<close>:
  \<^verbatim>\<open>CASE WHEN r.requester_id = auth.uid() THEN r.requester_phone
       WHEN EXISTS (SELECT 1 FROM contact_requests cr WHERE cr.request_id = r.id
                    AND cr.donor_id = auth.uid() AND cr.status = 'approved')
       THEN r.requester_phone ELSE NULL END\<close>
\<close>

definition approved_contact :: "uuid option \<Rightarrow> request \<Rightarrow> contact_request \<Rightarrow> sql_bool" where
  "approved_contact uid r cr =
     sql_and (sql_and (sql_eq (Some (cr_request_id cr)) (Some (r_id r)))
                      (sql_eq (Some (cr_donor_id cr)) uid))
             (sql_eq (Some (cr_status cr)) (Some ''approved''))"

definition safe_phone :: "uuid option \<Rightarrow> contact_request list \<Rightarrow> request \<Rightarrow> string option" where
  "safe_phone uid crs r =
     (if is_true (sql_eq (Some (r_requester_id r)) uid) then Some (r_requester_phone r)
      else if (\<exists>cr \<in> set crs. is_true (approved_contact uid r cr)) then Some (r_requester_phone r)
      else None)"

definition safe_row :: "uuid option \<Rightarrow> contact_request list \<Rightarrow> request \<Rightarrow> safe_request" where
  "safe_row uid crs r =
     \<lparr>s_id = r_id r, s_blood_group = r_blood_group r, s_requester_id = r_requester_id r,
      s_requester_name = r_requester_name r, s_requester_phone = safe_phone uid crs r,
      s_district = r_district r, s_state = r_state r,
      s_location_description = r_location_description r, s_message = r_message r,
      s_status = r_status r, s_expires_at = r_expires_at r, s_created_at = r_created_at r,
      s_updated_at = r_updated_at r\<rparr>"

text \<open>
  The \<^verbatim>\<open>WHERE\<close> of \<^verbatim>\<open>get_safe_requests\<close>, with the two scalar subqueries' values
  \<open>d\<close> and \<open>b\<close>:
  \<^verbatim>\<open>r.status = 'open' AND r.expires_at > now()
    AND ((r.district = d AND r.blood_group = b AND r.requester_id <> auth.uid())
         OR r.requester_id = auth.uid())\<close>
\<close>

definition get_safe_requests_where ::
  "uuid option \<Rightarrow> timestamptz \<Rightarrow> string option \<Rightarrow> blood_group option \<Rightarrow> request \<Rightarrow> sql_bool" where
  "get_safe_requests_where uid now d b r =
     sql_and (sql_and (sql_eq (Some (r_status r)) (Some Open))
                      (sql_gt (Some (r_expires_at r)) (Some now)))
             (sql_or (sql_and (sql_and (sql_eq (Some (r_district r)) d)
                                       (sql_eq (Some (r_blood_group r)) b))
                              (sql_ne (Some (r_requester_id r)) uid))
                     (sql_eq (Some (r_requester_id r)) uid))"

text \<open>
  \<^verbatim>\<open>get_safe_requests()\<close> is \<^verbatim>\<open>SECURITY DEFINER\<close>: it reads the three tables as their
  owner, past row-level security. \<^verbatim>\<open>ORDER BY r.created_at DESC\<close> is a stable sort on the
  negated key (SQL leaves the order of equal keys open).
\<close>

definition get_safe_requests :: "uuid option \<Rightarrow> timestamptz \<Rightarrow> db \<Rightarrow> pg_error + safe_request list" where
  "get_safe_requests uid now d =
     (case caller_district uid (profiles d) of
        Inl e \<Rightarrow> Inl e
      | Inr dist \<Rightarrow>
          (case caller_blood_group uid (profiles d) of
             Inl e \<Rightarrow> Inl e
           | Inr bg \<Rightarrow>
               Inr (map (safe_row uid (contact_requests d))
                     (sort_key (\<lambda>r. - r_created_at r)
                        (filter (\<lambda>r. is_true (get_safe_requests_where uid now dist bg r))
                           (requests d))))))"

text \<open>
  The select policy on \<^verbatim>\<open>public.requests\<close> (migration 20250925113624, which drops the
  first migration's policy under its truncated name and creates this one):
  \<^verbatim>\<open>status = 'open' AND expires_at > now() AND
    ((district = d AND blood_group = b AND requester_id != auth.uid())
     OR requester_id = auth.uid())\<close>
\<close>

definition requests_select_policy ::
  "uuid option \<Rightarrow> timestamptz \<Rightarrow> string option \<Rightarrow> blood_group option \<Rightarrow> request \<Rightarrow> sql_bool" where
  "requests_select_policy uid now d b r =
     sql_and (sql_and (sql_eq (Some (r_status r)) (Some Open))
                      (sql_gt (Some (r_expires_at r)) (Some now)))
             (sql_or (sql_and (sql_and (sql_eq (Some (r_district r)) d)
                                       (sql_eq (Some (r_blood_group r)) b))
                              (sql_ne (Some (r_requester_id r)) uid))
                     (sql_eq (Some (r_requester_id r)) uid))"

text \<open>
  \<^verbatim>\<open>SELECT * FROM requests\<close> as the caller: the rows the select policy passes. The
  policy's subqueries run as the caller too; each select policy the profiles table has had
  lets a user read their own row, the only row the subqueries ask for.
\<close>

definition select_requests :: "uuid option \<Rightarrow> timestamptz \<Rightarrow> db \<Rightarrow> pg_error + request list" where
  "select_requests uid now d =
     (case caller_district uid (profiles d) of
        Inl e \<Rightarrow> Inl e
      | Inr dist \<Rightarrow>
          (case caller_blood_group uid (profiles d) of
             Inl e \<Rightarrow> Inl e
           | Inr bg \<Rightarrow>
               Inr (filter (\<lambda>r. is_true (requests_select_policy uid now dist bg r)) (requests d))))"

text \<open>
  \<^verbatim>\<open>fetchMyRequests\<close> of the dashboard: the rows of \<^verbatim>\<open>get_safe_requests\<close> with
  \<^verbatim>\<open>req.requester_id === user.id\<close>; an error is caught and the list is not set.
\<close>

definition fetchMyRequests :: "uuid \<Rightarrow> timestamptz \<Rightarrow> db \<Rightarrow> pg_error + safe_request list" where
  "fetchMyRequests user_id now d =
     (case get_safe_requests (Some user_id) now d of
        Inl e \<Rightarrow> Inl e
      | Inr rows \<Rightarrow> Inr (filter (\<lambda>req. s_requester_id req = user_id) rows))"

section \<open>Writing requests\<close>

text \<open>
  The insert payload of \<^verbatim>\<open>requests\<close>. A key the client leaves out (\<open>None\<close> for
  \<open>status\<close> and \<open>expires_at\<close>) takes the column's \<^verbatim>\<open>DEFAULT\<close>; enum columns arrive
  as text. \<^verbatim>\<open>id\<close>, \<^verbatim>\<open>created_at\<close> and \<^verbatim>\<open>updated_at\<close> are never sent:
  \<^verbatim>\<open>gen_random_uuid()\<close> is the parameter \<open>new_id\<close>, the other two are \<^verbatim>\<open>now()\<close>.
\<close>

record request_insert =
  ri_requester_id :: uuid
  ri_blood_group :: string
  ri_requester_name :: string
  ri_requester_phone :: string
  ri_district :: string
  ri_state :: string
  ri_location_description :: "string option"
  ri_message :: "string option"
  ri_status :: "string option"
  ri_expires_at :: "timestamptz option"

text \<open>\<^verbatim>\<open>status request_status NOT NULL DEFAULT 'open'\<close>\<close>

definition status_or_default :: "string option \<Rightarrow> pg_error + request_status" where
  "status_or_default s =
     (case s of
        None \<Rightarrow> Inr Open
      | Some t \<Rightarrow> (case request_status_in t of None \<Rightarrow> Inl InvalidTextRepresentation | Some v \<Rightarrow> Inr v))"

text \<open>\<^verbatim>\<open>expires_at TIMESTAMP WITH TIME ZONE NOT NULL DEFAULT (now() + interval '24 hours')\<close>\<close>

definition expires_at_or_default :: "timestamptz \<Rightarrow> timestamptz option \<Rightarrow> timestamptz" where
  "expires_at_or_default now e = (case e of None \<Rightarrow> now + interval_hours 24 | Some t \<Rightarrow> t)"

text \<open>\<^verbatim>\<open>"Users can insert their own requests" ... WITH CHECK (auth.uid() = requester_id)\<close>\<close>

definition requests_insert_check :: "uuid option \<Rightarrow> request \<Rightarrow> sql_bool" where
  "requests_insert_check uid r = sql_eq uid (Some (r_requester_id r))"

text \<open>\<^verbatim>\<open>"Users can update their own requests" ... USING (auth.uid() = requester_id)\<close>\<close>

definition requests_update_policy :: "uuid option \<Rightarrow> request \<Rightarrow> sql_bool" where
  "requests_update_policy uid r = sql_eq uid (Some (r_requester_id r))"

text \<open>
  \<^verbatim>\<open>INSERT INTO requests ... RETURNING *\<close> as the caller. The new row must pass the insert
  policy and, because it is returned, the select policy; then the primary key and the
  foreign key \<^verbatim>\<open>requester_id REFERENCES profiles(user_id)\<close> are checked. An error leaves
  the table as it was.
\<close>

definition insert_request ::
  "uuid option \<Rightarrow> timestamptz \<Rightarrow> uuid \<Rightarrow> request_insert \<Rightarrow> db \<Rightarrow> pg_error + (request \<times> db)" where
  "insert_request uid now new_id p d =
     (case blood_group_in (ri_blood_group p) of
        None \<Rightarrow> Inl InvalidTextRepresentation
      | Some bg \<Rightarrow>
     (case status_or_default (ri_status p) of
        Inl e \<Rightarrow> Inl e
      | Inr st \<Rightarrow>
     (case caller_district uid (profiles d) of
        Inl e \<Rightarrow> Inl e
      | Inr dist \<Rightarrow>
     (case caller_blood_group uid (profiles d) of
        Inl e \<Rightarrow> Inl e
      | Inr cbg \<Rightarrow>
          (let row = \<lparr>r_id = new_id, r_requester_id = ri_requester_id p, r_blood_group = bg,
                      r_requester_name = ri_requester_name p,
                      r_requester_phone = ri_requester_phone p,
                      r_district = ri_district p, r_state = ri_state p,
                      r_location_description = ri_location_description p,
                      r_message = ri_message p, r_status = st,
                      r_expires_at = expires_at_or_default now (ri_expires_at p),
                      r_created_at = now, r_updated_at = now\<rparr>
           in if \<not> is_true (requests_insert_check uid row) then Inl RowSecurityViolation
              else if \<not> is_true (requests_select_policy uid now dist cbg row) then Inl RowSecurityViolation
              else if new_id \<in> set (map r_id (requests d)) then Inl UniqueViolation
              else if ri_requester_id p \<notin> set (map p_user_id (profiles d)) then Inl ForeignKeyViolation
              else Inr (row, d\<lparr>requests := requests d @ [row]\<rparr>))))))"

text \<open>
  \<^verbatim>\<open>RequestBloodDialog.onSubmit\<close>: the insert with the form's fields, \<^verbatim>\<open>requester_id\<close>
  the signed-in user, and neither \<^verbatim>\<open>status\<close> nor \<^verbatim>\<open>expires_at\<close>. The notification call
  that follows is outside the database and cannot undo the insert.
\<close>

record BloodRequestForm =
  bloodGroup :: string
  requesterName :: string
  requesterPhone :: string
  district :: string
  state :: string
  locationDescription :: string
  message :: string

definition RequestBloodDialog_onSubmit ::
  "uuid \<Rightarrow> timestamptz \<Rightarrow> uuid \<Rightarrow> BloodRequestForm \<Rightarrow> db \<Rightarrow> pg_error + (request \<times> db)" where
  "RequestBloodDialog_onSubmit user_id now new_id f d =
     insert_request (Some user_id) now new_id
       \<lparr>ri_requester_id = user_id, ri_blood_group = bloodGroup f,
        ri_requester_name = requesterName f, ri_requester_phone = requesterPhone f,
        ri_district = district f, ri_state = state f,
        ri_location_description = Some (locationDescription f),
        ri_message = Some (message f), ri_status = None, ri_expires_at = None\<rparr> d"

text \<open>
  \<^verbatim>\<open>UPDATE requests SET status = $1 WHERE id = $2\<close> as the caller. The rows touched are
  those with that id which the select and update policies pass; with no such row the
  statement ends with zero rows updated and the text is never read. For a row that is
  touched the text is read as a \<^verbatim>\<open>request_status\<close>, which fails for a text that is not
  a label of the enum; the trigger \<^verbatim>\<open>update_requests_updated_at\<close> stamps the row; each
  new row must again pass the update policy and the select policy.
\<close>

definition update_request_status ::
  "uuid option \<Rightarrow> timestamptz \<Rightarrow> uuid \<Rightarrow> string \<Rightarrow> db \<Rightarrow> pg_error + db" where
  "update_request_status uid now rid status_text d =
     (case caller_district uid (profiles d) of
        Inl e \<Rightarrow> Inl e
      | Inr dist \<Rightarrow>
     (case caller_blood_group uid (profiles d) of
        Inl e \<Rightarrow> Inl e
      | Inr cbg \<Rightarrow>
          (let hit = (\<lambda>r. r_id r = rid \<and> is_true (requests_select_policy uid now dist cbg r)
                          \<and> is_true (requests_update_policy uid r))
           in if \<not> (\<exists>r \<in> set (requests d). hit r) then Inr d
              else
                (case request_status_in status_text of
                   None \<Rightarrow> Inl InvalidTextRepresentation
                 | Some st \<Rightarrow>
                     (let upd = (\<lambda>r. r\<lparr>r_status := st, r_updated_at := now\<rparr>)
                      in if (\<exists>r \<in> set (requests d). hit r \<and>
                               \<not> (is_true (requests_update_policy uid (upd r))
                                  \<and> is_true (requests_select_policy uid now dist cbg (upd r))))
                         then Inl RowSecurityViolation
                         else Inr (d\<lparr>requests := map (\<lambda>r. if hit r then upd r else r)
                                                      (requests d)\<rparr>))))))"

text \<open>\<^verbatim>\<open>handleCancelRequest\<close> of the dashboard that updates: \<^verbatim>\<open>.update({ status: 'cancelled' }).eq('id', requestId)\<close>\<close>

definition handleCancelRequest :: "uuid \<Rightarrow> timestamptz \<Rightarrow> uuid \<Rightarrow> db \<Rightarrow> pg_error + db" where
  "handleCancelRequest user_id now requestId d =
     update_request_status (Some user_id) now requestId ''cancelled'' d"

text \<open>
  \<^verbatim>\<open>expire_old_requests()\<close>, \<^verbatim>\<open>SECURITY DEFINER\<close>:
  \<^verbatim>\<open>UPDATE public.requests SET status = 'expired' WHERE status = 'open' AND expires_at <= now()\<close>,
  with the \<^verbatim>\<open>BEFORE UPDATE\<close> trigger setting \<^verbatim>\<open>updated_at = now()\<close> on each row updated.
\<close>

definition expire_old_requests :: "timestamptz \<Rightarrow> db \<Rightarrow> db" where
  "expire_old_requests now d =
     d\<lparr>requests :=
         map (\<lambda>r. if is_true (sql_and (sql_eq (Some (r_status r)) (Some Open))
                                      (sql_le (Some (r_expires_at r)) (Some now)))
                  then r\<lparr>r_status := Expired, r_updated_at := now\<rparr> else r)
             (requests d)\<rparr>"

section \<open>Contact requests\<close>

text \<open>
  The policies of \<^verbatim>\<open>public.contact_requests\<close> (migration 20250929062623):
  two select policies, \<^verbatim>\<open>USING (auth.uid() = donor_id)\<close> and
  \<^verbatim>\<open>USING (auth.uid() = requester_id)\<close>, which combine by OR; the one insert policy,
  \<^verbatim>\<open>WITH CHECK (auth.uid() = requester_id)\<close>; the one update policy,
  \<^verbatim>\<open>USING (auth.uid() = donor_id)\<close>.
\<close>

definition contact_requests_select_policy :: "uuid option \<Rightarrow> contact_request \<Rightarrow> sql_bool" where
  "contact_requests_select_policy uid cr =
     sql_or (sql_eq uid (Some (cr_donor_id cr))) (sql_eq uid (Some (cr_requester_id cr)))"

definition contact_requests_insert_check :: "uuid option \<Rightarrow> contact_request \<Rightarrow> sql_bool" where
  "contact_requests_insert_check uid cr = sql_eq uid (Some (cr_requester_id cr))"

definition contact_requests_update_policy :: "uuid option \<Rightarrow> contact_request \<Rightarrow> sql_bool" where
  "contact_requests_update_policy uid cr = sql_eq uid (Some (cr_donor_id cr))"

record contact_request_insert =
  cri_request_id :: uuid
  cri_donor_id :: uuid
  cri_requester_id :: uuid
  cri_message :: "string option"

text \<open>
  \<^verbatim>\<open>INSERT INTO contact_requests (request_id, donor_id, requester_id, message)\<close> as the
  caller, nothing returned. Defaults: \<^verbatim>\<open>status 'pending'\<close>, both timestamps \<^verbatim>\<open>now()\<close>,
  \<^verbatim>\<open>expires_at now() + '72:00:00'\<close>. The insert policy, the status check, the primary key
  and the three foreign keys of migration 20250930130926 guard the row.
\<close>

definition insert_contact_request ::
  "uuid option \<Rightarrow> timestamptz \<Rightarrow> uuid \<Rightarrow> contact_request_insert \<Rightarrow> db \<Rightarrow> pg_error + db" where
  "insert_contact_request uid now new_id p d =
     (let row = \<lparr>cr_id = new_id, cr_request_id = cri_request_id p, cr_donor_id = cri_donor_id p,
                 cr_requester_id = cri_requester_id p, cr_status = ''pending'',
                 cr_message = cri_message p, cr_created_at = now, cr_updated_at = now,
                 cr_expires_at = now + interval_hours 72\<rparr>
      in if \<not> is_true (contact_requests_insert_check uid row) then Inl RowSecurityViolation
         else if \<not> contact_status_check (cr_status row) then Inl CheckViolation
         else if new_id \<in> set (map cr_id (contact_requests d)) then Inl UniqueViolation
         else if cri_request_id p \<notin> set (map r_id (requests d))
                 \<or> cri_donor_id p \<notin> set (auth_users d)
                 \<or> cri_requester_id p \<notin> set (auth_users d) then Inl ForeignKeyViolation
         else Inr (d\<lparr>contact_requests := contact_requests d @ [row]\<rparr>))"

text \<open>
  \<^verbatim>\<open>ContactRequestDialog.onSubmit\<close> (the requester invites a donor): without a signed-in
  user it returns early; otherwise it inserts with \<^verbatim>\<open>requester_id: user.id\<close>. A database
  error is thrown, caught and shown; the table is then unchanged.
\<close>

definition ContactRequestDialog_onSubmit ::
  "uuid option \<Rightarrow> timestamptz \<Rightarrow> uuid \<Rightarrow> uuid \<Rightarrow> uuid \<Rightarrow> string \<Rightarrow> db \<Rightarrow> pg_error + db" where
  "ContactRequestDialog_onSubmit user now new_id requestId donorId msg d =
     (case user of
        None \<Rightarrow> Inl AuthenticationRequired
      | Some user_id \<Rightarrow>
          insert_contact_request (Some user_id) now new_id
            \<lparr>cri_request_id = requestId, cri_donor_id = donorId,
             cri_requester_id = user_id, cri_message = Some msg\<rparr> d)"

text \<open>
  \<^verbatim>\<open>DonorContactRequestDialog.onSubmit\<close> (the donor offers to help): the same insert with
  \<^verbatim>\<open>donor_id: user.id\<close> and \<^verbatim>\<open>requester_id: requesterId\<close>.
\<close>

definition DonorContactRequestDialog_onSubmit ::
  "uuid option \<Rightarrow> timestamptz \<Rightarrow> uuid \<Rightarrow> uuid \<Rightarrow> uuid \<Rightarrow> string \<Rightarrow> db \<Rightarrow> pg_error + db" where
  "DonorContactRequestDialog_onSubmit user now new_id requestId requesterId msg d =
     (case user of
        None \<Rightarrow> Inl AuthenticationRequired
      | Some user_id \<Rightarrow>
          insert_contact_request (Some user_id) now new_id
            \<lparr>cri_request_id = requestId, cri_donor_id = user_id,
             cri_requester_id = requesterId, cri_message = Some msg\<rparr> d)"

text \<open>
  \<^verbatim>\<open>updateRequestStatus\<close> of \<^verbatim>\<open>ContactRequestList\<close>:
  \<^verbatim>\<open>UPDATE contact_requests SET status = $1 WHERE id = $2\<close> as the caller. Row-level
  security silently leaves out every row the select policies or the update policy do not
  pass. The trigger stamps \<^verbatim>\<open>updated_at\<close>; a new row must pass the update policy (its
  \<^verbatim>\<open>USING\<close> doubles as the check), the select policies and the status check.
\<close>

definition updateRequestStatus ::
  "uuid option \<Rightarrow> timestamptz \<Rightarrow> uuid \<Rightarrow> string \<Rightarrow> db \<Rightarrow> pg_error + db" where
  "updateRequestStatus uid now requestId status d =
     (let hit = (\<lambda>cr. cr_id cr = requestId \<and> is_true (contact_requests_select_policy uid cr)
                       \<and> is_true (contact_requests_update_policy uid cr));
          upd = (\<lambda>cr. cr\<lparr>cr_status := status, cr_updated_at := now\<rparr>)
      in if (\<exists>cr \<in> set (contact_requests d). hit cr \<and>
               \<not> (is_true (contact_requests_update_policy uid (upd cr))
                  \<and> is_true (contact_requests_select_policy uid (upd cr))))
         then Inl RowSecurityViolation
         else if (\<exists>cr \<in> set (contact_requests d). hit cr \<and> \<not> contact_status_check (cr_status (upd cr)))
         then Inl CheckViolation
         else Inr (d\<lparr>contact_requests := map (\<lambda>cr. if hit cr then upd cr else cr) (contact_requests d)\<rparr>))"

section \<open>Claims\<close>

text \<open>The claims table as the first migration creates it (lines 40-46).\<close>

definition claims_schema_20250924025228 :: claims_schema where
  "claims_schema_20250924025228 = \<lparr>unique_request_donor = True, donor_references_profiles = True\<rparr>"

text \<open>
  The claims table as migration 20250925113624 (lines 13-19) leaves it: dropped and created
  again with the primary key and the foreign key to requests only.
\<close>

definition claims_schema_20250925113624 :: claims_schema where
  "claims_schema_20250925113624 = \<lparr>unique_request_donor = False, donor_references_profiles = False\<rparr>"

definition recreate_claims :: "db \<Rightarrow> db" where
  "recreate_claims d = d\<lparr>claims := [], claims_ddl := claims_schema_20250925113624\<rparr>"

text \<open>\<^verbatim>\<open>"Users can create claims for open requests" ... WITH CHECK (auth.uid() = donor_id)\<close>\<close>

definition claims_insert_check :: "uuid option \<Rightarrow> claim \<Rightarrow> sql_bool" where
  "claims_insert_check uid c = sql_eq uid (Some (c_donor_id c))"

text \<open>
  \<^verbatim>\<open>INSERT INTO claims (request_id, donor_id)\<close> as the caller, under the constraints the
  table has at that moment.
\<close>

definition insert_claim ::
  "uuid option \<Rightarrow> timestamptz \<Rightarrow> uuid \<Rightarrow> uuid \<Rightarrow> uuid \<Rightarrow> db \<Rightarrow> pg_error + db" where
  "insert_claim uid now new_id request_id donor_id d =
     (let row = \<lparr>c_id = new_id, c_request_id = request_id, c_donor_id = donor_id, c_claimed_at = now\<rparr>
      in if \<not> is_true (claims_insert_check uid row) then Inl RowSecurityViolation
         else if new_id \<in> set (map c_id (claims d)) then Inl UniqueViolation
         else if unique_request_donor (claims_ddl d)
                 \<and> (\<exists>c \<in> set (claims d). c_request_id c = request_id \<and> c_donor_id c = donor_id)
              then Inl UniqueViolation
         else if request_id \<notin> set (map r_id (requests d))
                 \<or> (donor_references_profiles (claims_ddl d)
                     \<and> donor_id \<notin> set (map p_user_id (profiles d)))
              then Inl ForeignKeyViolation
         else Inr (d\<lparr>claims := claims d @ [row]\<rparr>))"

text \<open>\<^verbatim>\<open>handleClaimRequest\<close>: \<^verbatim>\<open>.from('claims').insert({ request_id: requestId, donor_id: user.id })\<close>\<close>

definition handleClaimRequest :: "uuid \<Rightarrow> timestamptz \<Rightarrow> uuid \<Rightarrow> uuid \<Rightarrow> db \<Rightarrow> pg_error + db" where
  "handleClaimRequest user_id now new_id requestId d =
     insert_claim (Some user_id) now new_id requestId user_id d"

section \<open>A small database\<close>

text \<open>
  Three users with a profile: 1 (Pune, O+), 2 (Pune, O+) and 3 (Goa, O+); user 4 has an
  account and no profile. User 1 owns an open request (10), a fulfilled one (11) and an
  open one past its expiry (12); user 2 owns request 13 for another district and group.
  User 2 has one pending contact request (20) on request 10.
\<close>

definition example_profiles :: "profile list" where
  "example_profiles =
     [\<lparr>p_id = 101, p_user_id = 1, p_full_name = ''Alice'', p_phone = ''+911111111111'',
       p_district = ''Pune'', p_state = ''MH'', p_blood_group = O_pos,
       p_created_at = 1, p_updated_at = 1, p_is_confirmed = Some True\<rparr>,
      \<lparr>p_id = 102, p_user_id = 2, p_full_name = ''Bob'', p_phone = ''+912222222222'',
       p_district = ''Pune'', p_state = ''MH'', p_blood_group = O_pos,
       p_created_at = 2, p_updated_at = 2, p_is_confirmed = Some True\<rparr>,
      \<lparr>p_id = 103, p_user_id = 3, p_full_name = ''Carol'', p_phone = ''+913333333333'',
       p_district = ''Goa'', p_state = ''GA'', p_blood_group = O_pos,
       p_created_at = 3, p_updated_at = 3, p_is_confirmed = Some False\<rparr>]"

definition example_requests :: "request list" where
  "example_requests =
     [\<lparr>r_id = 10, r_requester_id = 1, r_blood_group = O_pos, r_requester_name = ''Alice'',
       r_requester_phone = ''+911111111111'', r_district = ''Pune'', r_state = ''MH'',
       r_location_description = Some ''City hospital'', r_message = None, r_status = Open,
       r_expires_at = 200, r_created_at = 50, r_updated_at = 50\<rparr>,
      \<lparr>r_id = 11, r_requester_id = 1, r_blood_group = O_pos, r_requester_name = ''Alice'',
       r_requester_phone = ''+911111111111'', r_district = ''Pune'', r_state = ''MH'',
       r_location_description = None, r_message = None, r_status = Fulfilled,
       r_expires_at = 150, r_created_at = 20, r_updated_at = 30\<rparr>,
      \<lparr>r_id = 12, r_requester_id = 1, r_blood_group = O_pos, r_requester_name = ''Alice'',
       r_requester_phone = ''+911111111111'', r_district = ''Pune'', r_state = ''MH'',
       r_location_description = None, r_message = None, r_status = Open,
       r_expires_at = 90, r_created_at = 10, r_updated_at = 10\<rparr>,
      \<lparr>r_id = 13, r_requester_id = 2, r_blood_group = A_neg, r_requester_name = ''Bob'',
       r_requester_phone = ''+912222222222'', r_district = ''Goa'', r_state = ''GA'',
       r_location_description = None, r_message = Some ''urgent'', r_status = Open,
       r_expires_at = 300, r_created_at = 60, r_updated_at = 60\<rparr>]"

definition example_contact_requests :: "contact_request list" where
  "example_contact_requests =
     [\<lparr>cr_id = 20, cr_request_id = 10, cr_donor_id = 2, cr_requester_id = 1,
       cr_status = ''pending'', cr_message = Some ''I can help today'',
       cr_created_at = 70, cr_updated_at = 70, cr_expires_at = 1000\<rparr>]"

definition example_db :: db where
  "example_db = \<lparr>auth_users = [1, 2, 3, 4], profiles = example_profiles,
                 requests = example_requests, claims = [],
                 claims_ddl = claims_schema_20250925113624,
                 contact_requests = example_contact_requests\<rparr>"


definition example_form :: BloodRequestForm where
  "example_form = \<lparr>bloodGroup = ''O+'', requesterName = ''Bob'', requesterPhone = ''+912222222222'',
                   district = ''Pune'', state = ''MH'',
                   locationDescription = ''Ward 3, district hospital'', message = ''needed today''\<rparr>"

lemmas example_defs = example_db_def example_profiles_def example_requests_def
  example_contact_requests_def

lemmas eval_defs = get_safe_requests_def caller_district_def caller_blood_group_def
  scalar_subquery_def get_safe_requests_where_def safe_row_def safe_phone_def
  approved_contact_def fetchMyRequests_def

lemmas update_defs = updateRequestStatus_def contact_requests_select_policy_def
  contact_requests_update_policy_def contact_status_check_def

lemmas claim_defs = handleClaimRequest_def insert_claim_def claims_insert_check_def
  recreate_claims_def claims_schema_20250925113624_def claims_schema_20250924025228_def

section \<open>Basic facts\<close>

lemma is_true_sql_eq [simp]: "is_true (sql_eq (Some x) (Some y)) = (x = y)"
  by (simp add: is_true_def sql_eq_def)

lemma is_true_sql_eq_None [simp]: "is_true (sql_eq None b) = False" "is_true (sql_eq a None) = False"
  by (simp_all add: is_true_def sql_eq_def split: option.splits)

lemma is_true_sql_and [simp]: "is_true (sql_and a b) = (is_true a \<and> is_true b)"
  by (cases "(a, b)" rule: sql_and.cases) (simp_all add: is_true_def)

lemma is_true_sql_or [simp]: "is_true (sql_or a b) = (is_true a \<or> is_true b)"
  by (cases "(a, b)" rule: sql_or.cases) (simp_all add: is_true_def)

lemma is_true_sql_ne [simp]: "is_true (sql_ne (Some x) (Some y)) = (x \<noteq> y)"
  by (simp add: is_true_def sql_ne_def)

lemma is_true_sql_gt [simp]: "is_true (sql_gt (Some x) (Some y)) = (y < x)"
  by (simp add: is_true_def sql_gt_def)

lemma is_true_sql_le [simp]: "is_true (sql_le (Some x) (Some y)) = (x \<le> y)"
  by (simp add: is_true_def sql_le_def)

lemma where_Some_iff:
  "is_true (get_safe_requests_where (Some u) now dist bg r) \<longleftrightarrow>
     r_status r = Open \<and> now < r_expires_at r \<and>
     ((dist = Some (r_district r) \<and> bg = Some (r_blood_group r) \<and> r_requester_id r \<noteq> u)
      \<or> r_requester_id r = u)"
  by (cases dist; cases bg) (auto simp: get_safe_requests_where_def)

lemma where_open_unexpired:
  "is_true (get_safe_requests_where uid now dist bg r) \<Longrightarrow> r_status r = Open \<and> now < r_expires_at r"
  by (simp add: get_safe_requests_where_def)

lemma filter_key_distinct:
  "distinct (map f xs) \<Longrightarrow> length (filter (\<lambda>x. f x = k) xs) \<le> 1"
proof (induction xs)
  case Nil
  show ?case by simp
next
  case (Cons a xs)
  show ?case
  proof (cases "f a = k")
    case True
    with Cons.prems have "\<forall>x \<in> set xs. f x \<noteq> k" by (force simp: image_iff)
    then have "filter (\<lambda>x. f x = k) xs = []" by (simp add: filter_empty_conv)
    with True show ?thesis by simp
  next
    case False
    with Cons show ?thesis by simp
  qed
qed

lemma scalar_subquery_short:
  "length xs \<le> 1 \<Longrightarrow> \<exists>v. scalar_subquery xs = Inr v"
  by (cases xs; cases "tl xs") (auto simp: scalar_subquery_def)

lemma caller_rows_short:
  "distinct (map p_user_id ps) \<Longrightarrow>
   length (filter (\<lambda>p. is_true (sql_eq (Some (p_user_id p)) uid)) ps) \<le> 1"
proof (cases uid)
  case None
  then show ?thesis by simp
next
  case (Some u)
  assume "distinct (map p_user_id ps)"
  then show ?thesis using Some filter_key_distinct [of p_user_id ps u] by simp
qed

lemma caller_district_returns:
  assumes "distinct (map p_user_id ps)"
  shows "\<exists>v. caller_district uid ps = Inr v"
  unfolding caller_district_def
  using caller_rows_short [OF assms, of uid] by (intro scalar_subquery_short) simp

lemma caller_blood_group_returns:
  assumes "distinct (map p_user_id ps)"
  shows "\<exists>v. caller_blood_group uid ps = Inr v"
  unfolding caller_blood_group_def
  using caller_rows_short [OF assms, of uid] by (intro scalar_subquery_short) simp

lemma get_safe_requests_returns:
  assumes "distinct (map p_user_id (profiles d))"
  obtains dist bg where
    "caller_district uid (profiles d) = Inr dist"
    "caller_blood_group uid (profiles d) = Inr bg"
    "get_safe_requests uid now d =
       Inr (map (safe_row uid (contact_requests d))
              (sort_key (\<lambda>r. - r_created_at r)
                 (filter (\<lambda>r. is_true (get_safe_requests_where uid now dist bg r)) (requests d))))"
proof -
  from assms obtain dist where a: "caller_district uid (profiles d) = Inr dist"
    using caller_district_returns by blast
  from assms obtain bg where b: "caller_blood_group uid (profiles d) = Inr bg"
    using caller_blood_group_returns by blast
  show thesis
    by (rule that [OF a b]) (simp add: get_safe_requests_def a b)
qed

lemma safe_row_sel [simp]:
  "s_id (safe_row uid crs r) = r_id r"
  "s_requester_id (safe_row uid crs r) = r_requester_id r"
  "s_status (safe_row uid crs r) = r_status r"
  "s_expires_at (safe_row uid crs r) = r_expires_at r"
  "s_district (safe_row uid crs r) = r_district r"
  "s_blood_group (safe_row uid crs r) = r_blood_group r"
  "s_requester_phone (safe_row uid crs r) = safe_phone uid crs r"
  by (simp_all add: safe_row_def)

lemma is_true_sql_eq_right [simp]: "is_true (sql_eq a (Some y)) = (a = Some y)"
  by (cases a) auto

lemma is_true_sql_eq_left [simp]: "is_true (sql_eq (Some x) b) = (b = Some x)"
  by (cases b) auto

lemma is_true_sql_ne_left [simp]: "is_true (sql_ne (Some x) b) = (\<exists>y. b = Some y \<and> x \<noteq> y)"
  by (cases b) (auto simp: sql_ne_def is_true_def)

lemma scalar_subquery_empty: "scalar_subquery [] = Inr None"
  by (simp add: scalar_subquery_def)

lemma scalar_subquery_single: "scalar_subquery [x] = Inr (Some x)"
  by (simp add: scalar_subquery_def)

lemma no_profile_rows:
  "\<forall>p \<in> set ps. p_user_id p \<noteq> u \<Longrightarrow>
   filter (\<lambda>p. is_true (sql_eq (Some (p_user_id p)) (Some u))) ps = []"
  by (simp add: filter_empty_conv)

lemma one_profile_row:
  "distinct (map p_user_id ps) \<Longrightarrow> p \<in> set ps \<Longrightarrow>
   filter (\<lambda>q. is_true (sql_eq (Some (p_user_id q)) (Some (p_user_id p)))) ps = [p]"
proof (induction ps)
  case Nil
  then show ?case by simp
next
  case (Cons a ps)
  show ?case
  proof (cases "a = p")
    case True
    with Cons.prems have "\<forall>q \<in> set ps. p_user_id q \<noteq> p_user_id p" by (force simp: image_iff)
    then have "filter (\<lambda>q. p_user_id q = p_user_id p) ps = []" by (simp add: filter_empty_conv)
    with True show ?thesis by simp
  next
    case False
    with Cons.prems have "p \<in> set ps" and "p_user_id a \<noteq> p_user_id p" by (auto simp: image_iff)
    with Cons show ?thesis by simp
  qed
qed

lemma safe_row_eq_where:
  "safe_row uid crs r' = safe_row uid crs r \<Longrightarrow>
   get_safe_requests_where uid now dist bg r' = get_safe_requests_where uid now dist bg r"
  by (simp add: safe_row_def get_safe_requests_where_def)

lemma safe_row_returned_iff:
  "r \<in> set rs \<Longrightarrow>
   (safe_row uid crs r \<in> set (map (safe_row uid crs)
        (sort_key f (filter (\<lambda>r. is_true (get_safe_requests_where uid now dist bg r)) rs))))
   = is_true (get_safe_requests_where uid now dist bg r)"
  by (auto dest: safe_row_eq_where [where now = now and dist = dist and bg = bg])

lemma policy_is_where:
  "requests_select_policy uid now dist bg r = get_safe_requests_where uid now dist bg r"
  by (simp add: requests_select_policy_def get_safe_requests_where_def)

lemma caller_profile_values:
  assumes "distinct (map p_user_id ps)" and "p \<in> set ps"
  shows "caller_district (Some (p_user_id p)) ps = Inr (Some (p_district p))"
    and "caller_blood_group (Some (p_user_id p)) ps = Inr (Some (p_blood_group p))"
  using one_profile_row [OF assms]
  by (simp_all add: caller_district_def caller_blood_group_def scalar_subquery_single)

lemma safe_phone_iff:
  "(safe_phone (Some u) crs r \<noteq> None) =
     (r_requester_id r = u \<or>
      (\<exists>cr \<in> set crs. cr_request_id cr = r_id r \<and> cr_donor_id cr = u \<and> cr_status cr = ''approved''))"
  by (auto simp: safe_phone_def approved_contact_def)

lemma contact_hit_iff:
  "(is_true (contact_requests_select_policy uid cr) \<and> is_true (contact_requests_update_policy uid cr))
     = (uid = Some (cr_donor_id cr))"
  by (auto simp: contact_requests_select_policy_def contact_requests_update_policy_def)

lemma updateRequestStatus_result:
  assumes "contact_status_check st"
  shows "updateRequestStatus uid t cid st d =
           Inr (d\<lparr>contact_requests :=
                    map (\<lambda>cr. if cr_id cr = cid \<and> uid = Some (cr_donor_id cr)
                              then cr\<lparr>cr_status := st, cr_updated_at := t\<rparr> else cr)
                        (contact_requests d)\<rparr>)"
proof -
  have a: "\<not> (\<exists>cr \<in> set (contact_requests d).
       (cr_id cr = cid \<and> is_true (contact_requests_select_policy uid cr)
          \<and> is_true (contact_requests_update_policy uid cr)) \<and>
       \<not> (is_true (contact_requests_update_policy uid (cr\<lparr>cr_status := st, cr_updated_at := t\<rparr>))
          \<and> is_true (contact_requests_select_policy uid (cr\<lparr>cr_status := st, cr_updated_at := t\<rparr>))))"
    by (auto simp: contact_requests_select_policy_def contact_requests_update_policy_def)
  have b: "\<not> (\<exists>cr \<in> set (contact_requests d).
       (cr_id cr = cid \<and> is_true (contact_requests_select_policy uid cr)
          \<and> is_true (contact_requests_update_policy uid cr)) \<and>
       \<not> contact_status_check (cr_status (cr\<lparr>cr_status := st, cr_updated_at := t\<rparr>)))"
    using assms by simp
  have c: "\<And>cr. (cr_id cr = cid \<and> is_true (contact_requests_select_policy uid cr)
          \<and> is_true (contact_requests_update_policy uid cr))
        = (cr_id cr = cid \<and> uid = Some (cr_donor_id cr))"
    using contact_hit_iff by blast
  show ?thesis
    unfolding updateRequestStatus_def Let_def
    using a b by (simp add: c)
qed

lemma sql_and_False_right [simp]: "sql_and a (Some False) = Some False"
  by (cases "(a, Some False)" rule: sql_and.cases) simp_all

lemma approved_other_caller:
  "v \<noteq> cr_donor_id cr \<Longrightarrow>
   approved_contact (Some v) r (cr\<lparr>cr_status := st, cr_updated_at := t\<rparr>) = approved_contact (Some v) r cr"
  by (simp add: approved_contact_def sql_eq_def)

lemma safe_phone_map_contacts:
  "(\<And>cr. approved_contact uid r (f cr) = approved_contact uid r cr) \<Longrightarrow>
   safe_phone uid (map f crs) r = safe_phone uid crs r"
  by (simp add: safe_phone_def)

lemma get_safe_requests_map_contacts:
  assumes "\<And>r cr. approved_contact uid r (f cr) = approved_contact uid r cr"
  shows "get_safe_requests uid now (d\<lparr>contact_requests := map f (contact_requests d)\<rparr>)
         = get_safe_requests uid now d"
proof -
  have "\<And>crs. safe_row uid (map f crs) = safe_row uid crs"
    using safe_phone_map_contacts [of uid _ f] assms by (simp add: safe_row_def fun_eq_iff)
  then show ?thesis
    by (simp add: get_safe_requests_def cong: sum.case_cong)
qed

lemma get_safe_requests_other_caller:
  assumes "v \<noteq> donor"
  shows "get_safe_requests (Some v) now
           (d\<lparr>contact_requests :=
               map (\<lambda>cr. if cr_id cr = cid \<and> Some donor = Some (cr_donor_id cr)
                         then cr\<lparr>cr_status := st, cr_updated_at := t\<rparr> else cr)
                   (contact_requests d)\<rparr>)
         = get_safe_requests (Some v) now d"
  by (rule get_safe_requests_map_contacts) (use assms in \<open>auto simp: approved_other_caller\<close>)

lemma updateRequestStatus_Inr:
  assumes "updateRequestStatus uid t cid s d = Inr d'"
  shows "contact_requests d' =
           map (\<lambda>cr. if cr_id cr = cid \<and> uid = Some (cr_donor_id cr)
                     then cr\<lparr>cr_status := s, cr_updated_at := t\<rparr> else cr)
               (contact_requests d)"
proof -
  have c: "\<And>cr. (cr_id cr = cid \<and> is_true (contact_requests_select_policy uid cr)
          \<and> is_true (contact_requests_update_policy uid cr))
        = (cr_id cr = cid \<and> uid = Some (cr_donor_id cr))"
    using contact_hit_iff by blast
  from assms show ?thesis
    unfolding updateRequestStatus_def Let_def c
    by (auto split: if_splits)
qed

lemma interval_24h: "interval_hours 24 = 86400000000"
  by (simp add: interval_hours_def)

lemma insert_request_Inr:
  assumes "insert_request uid now new_id p d = Inr (row, d')"
  shows "r_created_at row = now \<and> r_expires_at row = expires_at_or_default now (ri_expires_at p)
         \<and> status_or_default (ri_status p) = Inr (r_status row)
         \<and> requests d' = requests d @ [row] \<and> r_id row = new_id
         \<and> r_requester_id row = ri_requester_id p"
  using assms unfolding insert_request_def Let_def
  by (auto split: option.splits sum.splits if_splits)

lemma donor_insert_denied:
  "requesterId \<noteq> user_id \<Longrightarrow>
   DonorContactRequestDialog_onSubmit (Some user_id) now new_id requestId requesterId msg d
     = Inl RowSecurityViolation"
  by (simp add: DonorContactRequestDialog_onSubmit_def insert_contact_request_def
      contact_requests_insert_check_def)

lemma requester_insert_stored:
  assumes "new_id \<notin> set (map cr_id (contact_requests d))"
    and "requestId \<in> set (map r_id (requests d))"
    and "donorId \<in> set (auth_users d)" and "user_id \<in> set (auth_users d)"
  shows "ContactRequestDialog_onSubmit (Some user_id) now new_id requestId donorId msg d =
           Inr (d\<lparr>contact_requests := contact_requests d @
                 [\<lparr>cr_id = new_id, cr_request_id = requestId, cr_donor_id = donorId,
                   cr_requester_id = user_id, cr_status = ''pending'', cr_message = Some msg,
                   cr_created_at = now, cr_updated_at = now,
                   cr_expires_at = now + interval_hours 72\<rparr>]\<rparr>)"
  using assms
  by (simp add: ContactRequestDialog_onSubmit_def insert_contact_request_def
      contact_requests_insert_check_def contact_status_check_def)

lemma insert_claim_keeps_unique:
  assumes "unique_request_donor (claims_ddl d)"
    and "distinct (map (\<lambda>c. (c_request_id c, c_donor_id c)) (claims d))"
    and "insert_claim uid now new_id request_id donor_id d = Inr d'"
  shows "distinct (map (\<lambda>c. (c_request_id c, c_donor_id c)) (claims d'))
         \<and> unique_request_donor (claims_ddl d')"
proof -
  from assms(1,3) have
    fresh: "\<forall>c \<in> set (claims d). (c_request_id c, c_donor_id c) \<noteq> (request_id, donor_id)" and
    d': "d' = d\<lparr>claims := claims d @
           [\<lparr>c_id = new_id, c_request_id = request_id, c_donor_id = donor_id, c_claimed_at = now\<rparr>]\<rparr>"
    unfolding insert_claim_def Let_def by (simp_all split: if_splits)
  from fresh have "(request_id, donor_id) \<notin> set (map (\<lambda>c. (c_request_id c, c_donor_id c)) (claims d))"
    by (force simp: image_iff)
  with assms(1,2) d' show ?thesis by simp
qed

section \<open>Reading requests: what is returned\<close>

text \<open>
  C10. \<^verbatim>\<open>get_safe_requests\<close> applies \<^verbatim>\<open>status = 'open'\<close> and \<^verbatim>\<open>expires_at > now()\<close> to
  every row, the caller's own included. With at most one profile per user the function
  returns, every row it returns is open and unexpired, the "My Requests" list of
  \<^verbatim>\<open>fetchMyRequests\<close> is drawn from those rows only, and a request of the caller that is
  not open, or is past its expiry, is not among them.
\<close>

theorem my_requests_only_open_unexpired:
  assumes "distinct (map p_user_id (profiles d))"
  shows "\<exists>rows mine.
           get_safe_requests (Some u) now d = Inr rows \<and>
           fetchMyRequests u now d = Inr mine \<and>
           set mine \<subseteq> set rows \<and>
           (\<forall>s \<in> set rows. s_status s = Open \<and> now < s_expires_at s) \<and>
           (\<forall>r \<in> set (requests d).
              r_requester_id r = u \<and> (r_status r \<noteq> Open \<or> r_expires_at r \<le> now) \<longrightarrow>
              safe_row (Some u) (contact_requests d) r \<notin> set rows)"
proof -
  from assms obtain dist bg where
    g: "get_safe_requests (Some u) now d =
       Inr (map (safe_row (Some u) (contact_requests d))
              (sort_key (\<lambda>r. - r_created_at r)
                 (filter (\<lambda>r. is_true (get_safe_requests_where (Some u) now dist bg r)) (requests d))))"
    by (rule get_safe_requests_returns)
  let ?rows = "map (safe_row (Some u) (contact_requests d))
              (sort_key (\<lambda>r. - r_created_at r)
                 (filter (\<lambda>r. is_true (get_safe_requests_where (Some u) now dist bg r)) (requests d)))"
  have open_rows: "\<forall>s \<in> set ?rows. s_status s = Open \<and> now < s_expires_at s"
    by (auto dest: where_open_unexpired)
  have "\<forall>r \<in> set (requests d).
              r_requester_id r = u \<and> (r_status r \<noteq> Open \<or> r_expires_at r \<le> now) \<longrightarrow>
              safe_row (Some u) (contact_requests d) r \<notin> set ?rows"
  proof (intro ballI impI notI)
    fix r assume "r_requester_id r = u \<and> (r_status r \<noteq> Open \<or> r_expires_at r \<le> now)"
      and "safe_row (Some u) (contact_requests d) r \<in> set ?rows"
    with open_rows have "s_status (safe_row (Some u) (contact_requests d) r) = Open \<and>
        now < s_expires_at (safe_row (Some u) (contact_requests d) r)" by blast
    with \<open>r_requester_id r = u \<and> (r_status r \<noteq> Open \<or> r_expires_at r \<le> now)\<close>
    show False by simp
  qed
  with open_rows g show ?thesis
    by (simp add: fetchMyRequests_def)
qed

theorem my_requests_only_open_unexpired_witness:
  "distinct (map p_user_id (profiles example_db)) \<and>
   (\<exists>rows mine.
           get_safe_requests (Some 1) 100 example_db = Inr rows \<and>
           fetchMyRequests 1 100 example_db = Inr mine \<and>
           map s_id mine = [10] \<and>
           (\<forall>s \<in> set rows. s_status s = Open \<and> 100 < s_expires_at s) \<and>
           (example_requests ! 1) \<in> set (requests example_db) \<and>
           r_requester_id (example_requests ! 1) = 1 \<and>
           r_status (example_requests ! 1) \<noteq> Open \<and>
           safe_row (Some 1) (contact_requests example_db) (example_requests ! 1) \<notin> set rows)"
proof -
  have h: "distinct (map p_user_id (profiles example_db))"
    by (simp add: example_defs)
  have m: "fetchMyRequests 1 100 example_db =
      Inr [safe_row (Some 1) example_contact_requests (example_requests ! 0)]"
    by (simp add: example_defs eval_defs)
  have r: "(example_requests ! 1) \<in> set (requests example_db) \<and>
           r_requester_id (example_requests ! 1) = 1 \<and>
           r_status (example_requests ! 1) \<noteq> Open"
    by (simp add: example_defs)
  from my_requests_only_open_unexpired [OF h, of 1 100] m r show ?thesis using h
    by (auto simp: safe_row_def example_requests_def)
qed

text \<open>
  C8. A caller without a profile row: both scalar subqueries are NULL, no error is raised,
  the district and blood-group comparisons are never TRUE, and \<^verbatim>\<open>get_safe_requests\<close>
  returns exactly the caller's own open, unexpired requests (none, if the caller has none).
\<close>

theorem no_profile_only_own:
  assumes "\<forall>p \<in> set (profiles d). p_user_id p \<noteq> u"
  shows "caller_district (Some u) (profiles d) = Inr None \<and>
         caller_blood_group (Some u) (profiles d) = Inr None \<and>
         (\<forall>r. \<not> is_true (sql_eq (Some (r_district r)) None) \<and>
              \<not> is_true (sql_eq (Some (r_blood_group r)) None)) \<and>
         get_safe_requests (Some u) now d =
           Inr (map (safe_row (Some u) (contact_requests d))
                  (sort_key (\<lambda>r. - r_created_at r)
                     (filter (\<lambda>r. r_requester_id r = u \<and> r_status r = Open \<and> now < r_expires_at r)
                        (requests d)))) \<and>
         (\<forall>rows. get_safe_requests (Some u) now d = Inr rows \<longrightarrow>
                 (\<forall>s \<in> set rows. s_requester_id s = u))"
proof -
  have cd: "caller_district (Some u) (profiles d) = Inr None"
    using assms by (simp add: caller_district_def no_profile_rows scalar_subquery_empty)
  have cb: "caller_blood_group (Some u) (profiles d) = Inr None"
    using assms by (simp add: caller_blood_group_def no_profile_rows scalar_subquery_empty)
  have w: "\<And>r. is_true (get_safe_requests_where (Some u) now None None r) =
             (r_requester_id r = u \<and> r_status r = Open \<and> now < r_expires_at r)"
    by (auto simp: where_Some_iff)
  have g: "get_safe_requests (Some u) now d =
           Inr (map (safe_row (Some u) (contact_requests d))
                  (sort_key (\<lambda>r. - r_created_at r)
                     (filter (\<lambda>r. r_requester_id r = u \<and> r_status r = Open \<and> now < r_expires_at r)
                        (requests d))))"
    by (simp add: get_safe_requests_def cd cb w)
  have "\<forall>rows. get_safe_requests (Some u) now d = Inr rows \<longrightarrow>
                 (\<forall>s \<in> set rows. s_requester_id s = u)"
    unfolding g by auto
  with cd cb g show ?thesis by simp
qed

theorem no_profile_only_own_witness:
  "4 \<notin> set (map p_user_id (profiles example_db)) \<and>
   get_safe_requests (Some 4) 100 example_db = Inr [] \<and>
   1 \<notin> set (map p_user_id (profiles (example_db\<lparr>profiles := tl example_profiles\<rparr>))) \<and>
   (\<exists>rows. get_safe_requests (Some 1) 100 (example_db\<lparr>profiles := tl example_profiles\<rparr>) = Inr rows
      \<and> map s_id rows = [10])"
proof -
  have h: "\<forall>p \<in> set (profiles example_db). p_user_id p \<noteq> 4"
    by (simp add: example_defs)
  have h1: "\<forall>p \<in> set (profiles (example_db\<lparr>profiles := tl example_profiles\<rparr>)). p_user_id p \<noteq> 1"
    by (simp add: example_defs)
  from no_profile_only_own [OF h, of 100] no_profile_only_own [OF h1, of 100] h h1
  show ?thesis
    by (simp add: example_defs)
qed

text \<open>
  C2. A caller \<open>u\<close> with a profile \<open>p\<close>: a request of another user is returned by
  \<^verbatim>\<open>get_safe_requests\<close>, and is visible under the select policy of the requests table,
  exactly when it is open, unexpired, in \<open>p\<close>'s district and of \<open>p\<close>'s blood group; a
  request of \<open>u\<close>'s own exactly when it is open and unexpired, whatever its district and
  blood group.
\<close>

theorem feed_visibility:
  assumes "distinct (map p_user_id (profiles d))"
    and "p \<in> set (profiles d)"
    and "p_user_id p = u"
  shows "\<exists>rows visible.
           get_safe_requests (Some u) now d = Inr rows \<and>
           select_requests (Some u) now d = Inr visible \<and>
           (\<forall>r \<in> set (requests d).
              (r_requester_id r \<noteq> u \<longrightarrow>
                 (safe_row (Some u) (contact_requests d) r \<in> set rows) =
                   (r_status r = Open \<and> now < r_expires_at r \<and>
                    r_district r = p_district p \<and> r_blood_group r = p_blood_group p) \<and>
                 (r \<in> set visible) =
                   (r_status r = Open \<and> now < r_expires_at r \<and>
                    r_district r = p_district p \<and> r_blood_group r = p_blood_group p)) \<and>
              (r_requester_id r = u \<longrightarrow>
                 (safe_row (Some u) (contact_requests d) r \<in> set rows) =
                   (r_status r = Open \<and> now < r_expires_at r) \<and>
                 (r \<in> set visible) = (r_status r = Open \<and> now < r_expires_at r)))"
proof -
  let ?dist = "Some (p_district p)" and ?bg = "Some (p_blood_group p)"
  let ?W = "\<lambda>r. is_true (get_safe_requests_where (Some u) now ?dist ?bg r)"
  let ?rows = "map (safe_row (Some u) (contact_requests d))
                 (sort_key (\<lambda>r. - r_created_at r) (filter ?W (requests d)))"
  have cd: "caller_district (Some u) (profiles d) = Inr ?dist"
    and cb: "caller_blood_group (Some u) (profiles d) = Inr ?bg"
    using caller_profile_values [OF assms(1,2)] assms(3) by simp_all
  have g: "get_safe_requests (Some u) now d = Inr ?rows"
    by (simp add: get_safe_requests_def cd cb)
  have v: "select_requests (Some u) now d = Inr (filter ?W (requests d))"
    by (simp add: select_requests_def cd cb policy_is_where)
  have in_rows: "\<And>r. r \<in> set (requests d) \<Longrightarrow>
      (safe_row (Some u) (contact_requests d) r \<in> set ?rows) = ?W r"
    by (rule safe_row_returned_iff)
  have "\<forall>r \<in> set (requests d).
              (r_requester_id r \<noteq> u \<longrightarrow>
                 (safe_row (Some u) (contact_requests d) r \<in> set ?rows) =
                   (r_status r = Open \<and> now < r_expires_at r \<and>
                    r_district r = p_district p \<and> r_blood_group r = p_blood_group p) \<and>
                 (r \<in> set (filter ?W (requests d))) =
                   (r_status r = Open \<and> now < r_expires_at r \<and>
                    r_district r = p_district p \<and> r_blood_group r = p_blood_group p)) \<and>
              (r_requester_id r = u \<longrightarrow>
                 (safe_row (Some u) (contact_requests d) r \<in> set ?rows) =
                   (r_status r = Open \<and> now < r_expires_at r) \<and>
                 (r \<in> set (filter ?W (requests d))) = (r_status r = Open \<and> now < r_expires_at r))"
  proof
    fix r assume r: "r \<in> set (requests d)"
    have w: "?W r = (r_status r = Open \<and> now < r_expires_at r \<and>
         ((r_district r = p_district p \<and> r_blood_group r = p_blood_group p \<and> r_requester_id r \<noteq> u)
          \<or> r_requester_id r = u))"
      by (auto simp: where_Some_iff)
    show "(r_requester_id r \<noteq> u \<longrightarrow>
                 (safe_row (Some u) (contact_requests d) r \<in> set ?rows) =
                   (r_status r = Open \<and> now < r_expires_at r \<and>
                    r_district r = p_district p \<and> r_blood_group r = p_blood_group p) \<and>
                 (r \<in> set (filter ?W (requests d))) =
                   (r_status r = Open \<and> now < r_expires_at r \<and>
                    r_district r = p_district p \<and> r_blood_group r = p_blood_group p)) \<and>
              (r_requester_id r = u \<longrightarrow>
                 (safe_row (Some u) (contact_requests d) r \<in> set ?rows) =
                   (r_status r = Open \<and> now < r_expires_at r) \<and>
                 (r \<in> set (filter ?W (requests d))) = (r_status r = Open \<and> now < r_expires_at r))"
      unfolding in_rows [OF r] using r w by auto
  qed
  with g v show ?thesis by blast
qed

theorem feed_visibility_witness:
  "distinct (map p_user_id (profiles example_db)) \<and>
   example_profiles ! 1 \<in> set (profiles example_db) \<and>
   p_user_id (example_profiles ! 1) = 2 \<and>
   example_profiles ! 2 \<in> set (profiles example_db) \<and>
   p_user_id (example_profiles ! 2) = 3 \<and>
   (\<exists>rows_b rows_c.
      get_safe_requests (Some 2) 100 example_db = Inr rows_b \<and>
      get_safe_requests (Some 3) 100 example_db = Inr rows_c \<and>
      safe_row (Some 2) (contact_requests example_db) (example_requests ! 0) \<in> set rows_b \<and>
      safe_row (Some 2) (contact_requests example_db) (example_requests ! 1) \<notin> set rows_b \<and>
      safe_row (Some 2) (contact_requests example_db) (example_requests ! 3) \<in> set rows_b \<and>
      safe_row (Some 3) (contact_requests example_db) (example_requests ! 0) \<notin> set rows_c)"
proof -
  have h: "distinct (map p_user_id (profiles example_db))"
    by (simp add: example_defs)
  have b: "example_profiles ! 1 \<in> set (profiles example_db)" "p_user_id (example_profiles ! 1) = 2"
    by (simp_all add: example_defs)
  have c: "example_profiles ! 2 \<in> set (profiles example_db)" "p_user_id (example_profiles ! 2) = 3"
    by (simp_all add: example_defs)
  have r: "example_requests ! 0 \<in> set (requests example_db)"
    "example_requests ! 1 \<in> set (requests example_db)"
    "example_requests ! 3 \<in> set (requests example_db)"
    by (simp_all add: example_defs)
  have f: "r_requester_id (example_requests ! 0) = 1" "r_status (example_requests ! 0) = Open"
     "r_expires_at (example_requests ! 0) = 200" "r_district (example_requests ! 0) = ''Pune''"
     "r_blood_group (example_requests ! 0) = O_pos"
     "r_requester_id (example_requests ! 1) = 1" "r_status (example_requests ! 1) = Fulfilled"
     "r_requester_id (example_requests ! 3) = 2" "r_status (example_requests ! 3) = Open"
     "r_expires_at (example_requests ! 3) = 300"
     "p_district (example_profiles ! 1) = ''Pune''" "p_blood_group (example_profiles ! 1) = O_pos"
     "p_district (example_profiles ! 2) = ''Goa''"
    by (simp_all add: example_defs)
  from feed_visibility [OF h b, of 100] obtain rows_b where
    gb: "get_safe_requests (Some 2) 100 example_db = Inr rows_b" and
    vb: "\<forall>r \<in> set (requests example_db).
              (r_requester_id r \<noteq> 2 \<longrightarrow>
                 (safe_row (Some 2) (contact_requests example_db) r \<in> set rows_b) =
                   (r_status r = Open \<and> 100 < r_expires_at r \<and>
                    r_district r = p_district (example_profiles ! 1) \<and>
                    r_blood_group r = p_blood_group (example_profiles ! 1))) \<and>
              (r_requester_id r = 2 \<longrightarrow>
                 (safe_row (Some 2) (contact_requests example_db) r \<in> set rows_b) =
                   (r_status r = Open \<and> 100 < r_expires_at r))"
    by blast
  from feed_visibility [OF h c, of 100] obtain rows_c where
    gc: "get_safe_requests (Some 3) 100 example_db = Inr rows_c" and
    vc: "\<forall>r \<in> set (requests example_db).
              (r_requester_id r \<noteq> 3 \<longrightarrow>
                 (safe_row (Some 3) (contact_requests example_db) r \<in> set rows_c) =
                   (r_status r = Open \<and> 100 < r_expires_at r \<and>
                    r_district r = p_district (example_profiles ! 2) \<and>
                    r_blood_group r = p_blood_group (example_profiles ! 2)))"
    by blast
  from vb r f have
    "safe_row (Some 2) (contact_requests example_db) (example_requests ! 0) \<in> set rows_b"
    "safe_row (Some 2) (contact_requests example_db) (example_requests ! 1) \<notin> set rows_b"
    "safe_row (Some 2) (contact_requests example_db) (example_requests ! 3) \<in> set rows_b"
    by simp_all
  moreover from vc r(1) f have
    "safe_row (Some 3) (contact_requests example_db) (example_requests ! 0) \<notin> set rows_c"
    by simp
  ultimately show ?thesis using h b c gb gc by blast
qed

section \<open>The phone number and the approval\<close>

text \<open>
  C1. In every row \<^verbatim>\<open>get_safe_requests\<close> returns to a caller \<open>u\<close>, the phone is not NULL
  exactly when \<open>u\<close> is the requester or some contact request for that request has
  \<open>donor_id = u\<close> and status \<^verbatim>\<open>'approved'\<close>. And for every contact request \<open>c\<close>: its
  donor's update to \<^verbatim>\<open>'approved'\<close> succeeds; on the donor's next read every returned row of
  \<open>c\<close>'s request carries the phone; and for every other caller the next read returns what
  it returned before the approval, so a phone that was NULL for them stays NULL.
\<close>

theorem phone_visibility:
  assumes "distinct (map p_user_id (profiles d))"
  shows "(\<exists>rows. get_safe_requests (Some u) now d = Inr rows \<and>
            (\<forall>s \<in> set rows.
               (s_requester_phone s \<noteq> None) =
                 (s_requester_id s = u \<or>
                  (\<exists>cr \<in> set (contact_requests d).
                     cr_request_id cr = s_id s \<and> cr_donor_id cr = u \<and> cr_status cr = ''approved'')))) \<and>
         (\<forall>c \<in> set (contact_requests d).
            \<exists>d'. updateRequestStatus (Some (cr_donor_id c)) t (cr_id c) ''approved'' d = Inr d' \<and>
              (\<exists>rows'. get_safe_requests (Some (cr_donor_id c)) now d' = Inr rows' \<and>
                 (\<forall>s \<in> set rows'. s_id s = cr_request_id c \<longrightarrow> s_requester_phone s \<noteq> None)) \<and>
              (\<forall>v. v \<noteq> cr_donor_id c \<longrightarrow>
                 get_safe_requests (Some v) now d' = get_safe_requests (Some v) now d))"
proof (rule conjI)
  from assms obtain dist bg where
    g: "get_safe_requests (Some u) now d =
       Inr (map (safe_row (Some u) (contact_requests d))
              (sort_key (\<lambda>r. - r_created_at r)
                 (filter (\<lambda>r. is_true (get_safe_requests_where (Some u) now dist bg r)) (requests d))))"
    by (rule get_safe_requests_returns)
  show "\<exists>rows. get_safe_requests (Some u) now d = Inr rows \<and>
            (\<forall>s \<in> set rows.
               (s_requester_phone s \<noteq> None) =
                 (s_requester_id s = u \<or>
                  (\<exists>cr \<in> set (contact_requests d).
                     cr_request_id cr = s_id s \<and> cr_donor_id cr = u \<and> cr_status cr = ''approved'')))"
    unfolding g using safe_phone_iff by auto
next
  show "\<forall>c \<in> set (contact_requests d).
            \<exists>d'. updateRequestStatus (Some (cr_donor_id c)) t (cr_id c) ''approved'' d = Inr d' \<and>
              (\<exists>rows'. get_safe_requests (Some (cr_donor_id c)) now d' = Inr rows' \<and>
                 (\<forall>s \<in> set rows'. s_id s = cr_request_id c \<longrightarrow> s_requester_phone s \<noteq> None)) \<and>
              (\<forall>v. v \<noteq> cr_donor_id c \<longrightarrow>
                 get_safe_requests (Some v) now d' = get_safe_requests (Some v) now d)"
  proof
    fix c assume c: "c \<in> set (contact_requests d)"
    let ?donor = "cr_donor_id c"
    let ?crs' = "map (\<lambda>cr. if cr_id cr = cr_id c \<and> Some ?donor = Some (cr_donor_id cr)
                              then cr\<lparr>cr_status := ''approved'', cr_updated_at := t\<rparr> else cr)
                        (contact_requests d)"
    let ?d' = "d\<lparr>contact_requests := ?crs'\<rparr>"
    have u: "updateRequestStatus (Some ?donor) t (cr_id c) ''approved'' d = Inr ?d'"
      by (rule updateRequestStatus_result) (simp add: contact_status_check_def)
    have "distinct (map p_user_id (profiles ?d'))" using assms by simp
    then obtain dist bg where
      g': "get_safe_requests (Some ?donor) now ?d' =
       Inr (map (safe_row (Some ?donor) (contact_requests ?d'))
              (sort_key (\<lambda>r. - r_created_at r)
                 (filter (\<lambda>r. is_true (get_safe_requests_where (Some ?donor) now dist bg r)) (requests ?d'))))"
      by (rule get_safe_requests_returns)
    have appr: "c\<lparr>cr_status := ''approved'', cr_updated_at := t\<rparr> \<in> set ?crs'"
      using c by (auto simp: image_iff intro!: bexI [of _ c])
    have vis: "\<And>r. r_id r = cr_request_id c \<Longrightarrow> safe_phone (Some ?donor) ?crs' r \<noteq> None"
      unfolding safe_phone_iff
      by (intro disjI2 bexI [OF _ appr]) simp
    have rows': "\<forall>s \<in> set (map (safe_row (Some ?donor) (contact_requests ?d'))
              (sort_key (\<lambda>r. - r_created_at r)
                 (filter (\<lambda>r. is_true (get_safe_requests_where (Some ?donor) now dist bg r)) (requests ?d')))).
             s_id s = cr_request_id c \<longrightarrow> s_requester_phone s \<noteq> None"
      using vis by auto
    have others: "\<forall>v. v \<noteq> ?donor \<longrightarrow>
                 get_safe_requests (Some v) now ?d' = get_safe_requests (Some v) now d"
      using get_safe_requests_other_caller by blast
    from u g' rows' others
    show "\<exists>d'. updateRequestStatus (Some ?donor) t (cr_id c) ''approved'' d = Inr d' \<and>
              (\<exists>rows'. get_safe_requests (Some ?donor) now d' = Inr rows' \<and>
                 (\<forall>s \<in> set rows'. s_id s = cr_request_id c \<longrightarrow> s_requester_phone s \<noteq> None)) \<and>
              (\<forall>v. v \<noteq> ?donor \<longrightarrow>
                 get_safe_requests (Some v) now d' = get_safe_requests (Some v) now d)"
      by blast
  qed
qed

theorem phone_visibility_witness:
  "distinct (map p_user_id (profiles example_db)) \<and>
   example_contact_requests ! 0 \<in> set (contact_requests example_db) \<and>
   cr_donor_id (example_contact_requests ! 0) = 2 \<and>
   cr_id (example_contact_requests ! 0) = 20 \<and>
   (\<exists>rows. get_safe_requests (Some 2) 100 example_db = Inr rows \<and>
      map (\<lambda>s. (s_id s, s_requester_phone s)) rows = [(13, Some ''+912222222222''), (10, None)]) \<and>
   (\<exists>d'. updateRequestStatus (Some 2) 110 20 ''approved'' example_db = Inr d' \<and>
      (\<exists>rows'. get_safe_requests (Some 2) 100 d' = Inr rows' \<and>
         map (\<lambda>s. (s_id s, s_requester_phone s)) rows' =
           [(13, Some ''+912222222222''), (10, Some ''+911111111111'')]) \<and>
      (\<forall>v. v \<noteq> 2 \<longrightarrow> get_safe_requests (Some v) 100 d' = get_safe_requests (Some v) 100 example_db))"
proof -
  have h: "distinct (map p_user_id (profiles example_db))"
    by (simp add: example_defs)
  have c: "example_contact_requests ! 0 \<in> set (contact_requests example_db)"
    "cr_donor_id (example_contact_requests ! 0) = 2" "cr_id (example_contact_requests ! 0) = 20"
    by (simp_all add: example_defs)
  have before: "\<exists>rows. get_safe_requests (Some 2) 100 example_db = Inr rows \<and>
      map (\<lambda>s. (s_id s, s_requester_phone s)) rows = [(13, Some ''+912222222222''), (10, None)]"
    by (simp add: example_defs eval_defs)
  from phone_visibility [OF h, of 2 100 110] c obtain d' where
    u: "updateRequestStatus (Some 2) 110 20 ''approved'' example_db = Inr d'" and
    o: "\<forall>v. v \<noteq> 2 \<longrightarrow> get_safe_requests (Some v) 100 d' = get_safe_requests (Some v) 100 example_db"
    by fastforce
  have "updateRequestStatus (Some 2) 110 20 ''approved'' example_db =
      Inr (example_db\<lparr>contact_requests :=
            [(example_contact_requests ! 0)\<lparr>cr_status := ''approved'', cr_updated_at := 110\<rparr>]\<rparr>)"
    by (simp add: example_defs update_defs)
  with u have d': "d' = example_db\<lparr>contact_requests :=
            [(example_contact_requests ! 0)\<lparr>cr_status := ''approved'', cr_updated_at := 110\<rparr>]\<rparr>"
    by simp
  have after: "\<exists>rows'. get_safe_requests (Some 2) 100 d' = Inr rows' \<and>
         map (\<lambda>s. (s_id s, s_requester_phone s)) rows' =
           [(13, Some ''+912222222222''), (10, Some ''+911111111111'')]"
    unfolding d' by (simp add: example_defs eval_defs)
  from h c before u after o show ?thesis
    by (intro conjI exI [of _ d']) assumption+
qed

text \<open>
  C3. For a contact request \<open>c\<close> (pending or not) and a new status \<^verbatim>\<open>'approved'\<close> or
  \<^verbatim>\<open>'declined'\<close>: the update by \<open>c\<close>'s donor succeeds and sets the status of \<open>c\<close>; the
  update by any other caller, whatever id it names, succeeds and leaves \<open>c\<close> as it was;
  and no update by another caller, with any status text, yields a table in which \<open>c\<close> has
  changed.
\<close>

theorem only_donor_changes_status:
  assumes "i < length (contact_requests d)"
    and "contact_requests d ! i = c"
    and "st = ''approved'' \<or> st = ''declined''"
  shows "(\<exists>d'. updateRequestStatus (Some (cr_donor_id c)) t (cr_id c) st d = Inr d' \<and>
               length (contact_requests d') = length (contact_requests d) \<and>
               contact_requests d' ! i = c\<lparr>cr_status := st, cr_updated_at := t\<rparr>) \<and>
         (\<forall>uid cid. uid \<noteq> Some (cr_donor_id c) \<longrightarrow>
            (\<exists>d'. updateRequestStatus uid t cid st d = Inr d' \<and>
                  length (contact_requests d') = length (contact_requests d) \<and>
                  contact_requests d' ! i = c)) \<and>
         (\<forall>uid cid s d'. uid \<noteq> Some (cr_donor_id c) \<and> updateRequestStatus uid t cid s d = Inr d' \<longrightarrow>
            contact_requests d' ! i = c)"
proof -
  have ok: "contact_status_check st"
    using assms(3) by (auto simp: contact_status_check_def)
  have r: "\<And>uid cid. \<exists>d'. updateRequestStatus uid t cid st d = Inr d'"
    using updateRequestStatus_result [OF ok] by blast
  have n: "\<And>uid cid s d'. updateRequestStatus uid t cid s d = Inr d' \<Longrightarrow>
      length (contact_requests d') = length (contact_requests d) \<and>
      contact_requests d' ! i =
        (if cr_id c = cid \<and> uid = Some (cr_donor_id c)
         then c\<lparr>cr_status := s, cr_updated_at := t\<rparr> else c)"
    using assms(1,2) by (simp add: updateRequestStatus_Inr)
  have a: "\<exists>d'. updateRequestStatus (Some (cr_donor_id c)) t (cr_id c) st d = Inr d' \<and>
               length (contact_requests d') = length (contact_requests d) \<and>
               contact_requests d' ! i = c\<lparr>cr_status := st, cr_updated_at := t\<rparr>"
    using r [of "Some (cr_donor_id c)" "cr_id c"] n by fastforce
  have b: "\<forall>uid cid. uid \<noteq> Some (cr_donor_id c) \<longrightarrow>
            (\<exists>d'. updateRequestStatus uid t cid st d = Inr d' \<and>
                  length (contact_requests d') = length (contact_requests d) \<and>
                  contact_requests d' ! i = c)"
  proof (intro allI impI)
    fix uid cid assume "uid \<noteq> Some (cr_donor_id c)"
    with r [of uid cid] n show "\<exists>d'. updateRequestStatus uid t cid st d = Inr d' \<and>
                  length (contact_requests d') = length (contact_requests d) \<and>
                  contact_requests d' ! i = c"
      by fastforce
  qed
  have e: "\<forall>uid cid s d'. uid \<noteq> Some (cr_donor_id c) \<and> updateRequestStatus uid t cid s d = Inr d' \<longrightarrow>
            contact_requests d' ! i = c"
  proof (intro allI impI)
    fix uid cid s d'
    assume "uid \<noteq> Some (cr_donor_id c) \<and> updateRequestStatus uid t cid s d = Inr d'"
    then have "uid \<noteq> Some (cr_donor_id c)" and "updateRequestStatus uid t cid s d = Inr d'"
      by simp_all
    with n [of uid cid s d'] show "contact_requests d' ! i = c" by simp
  qed
  from a b e show ?thesis by blast
qed

theorem only_donor_changes_status_witness:
  "0 < length (contact_requests example_db) \<and>
   cr_status (contact_requests example_db ! 0) = ''pending'' \<and>
   cr_donor_id (contact_requests example_db ! 0) = 2 \<and>
   cr_requester_id (contact_requests example_db ! 0) = 1 \<and>
   (\<exists>d'. updateRequestStatus (Some 2) 110 20 ''declined'' example_db = Inr d' \<and>
      cr_status (contact_requests d' ! 0) = ''declined'') \<and>
   (\<exists>d'. updateRequestStatus (Some 1) 110 20 ''approved'' example_db = Inr d' \<and>
      contact_requests d' ! 0 = contact_requests example_db ! 0)"
proof -
  have i: "0 < length (contact_requests example_db)"
    by (simp add: example_defs)
  have f: "cr_status (contact_requests example_db ! 0) = ''pending''"
    "cr_donor_id (contact_requests example_db ! 0) = 2"
    "cr_requester_id (contact_requests example_db ! 0) = 1"
    "cr_id (contact_requests example_db ! 0) = 20"
    by (simp_all add: example_defs)
  have s1: "''declined'' = ''approved'' \<or> ''declined'' = ''declined''" by simp
  have s2: "''approved'' = ''approved'' \<or> ''approved'' = ''declined''" by simp
  have ne: "Some (1 :: uuid) \<noteq> Some (cr_donor_id (contact_requests example_db ! 0))"
    by (simp add: f)
  from only_donor_changes_status [OF i refl s1, of 110] f
  have a: "\<exists>d'. updateRequestStatus (Some 2) 110 20 ''declined'' example_db = Inr d' \<and>
      cr_status (contact_requests d' ! 0) = ''declined''"
    by fastforce
  from only_donor_changes_status [OF i refl s2, of 110] ne
  have b: "\<exists>d'. updateRequestStatus (Some 1) 110 20 ''approved'' example_db = Inr d' \<and>
      contact_requests d' ! 0 = contact_requests example_db ! 0"
    by blast
  from i f a b show ?thesis
    by (intro conjI) assumption+
qed

section \<open>The request lifecycle\<close>

text \<open>
  C7. \<^verbatim>\<open>expire_old_requests\<close> keeps the number and order of the request rows. A row that
  is open with \<^verbatim>\<open>expires_at <= now\<close> becomes expired, its \<^verbatim>\<open>updated_at\<close> is stamped by
  the trigger, and none of its other fields changes; every other row is the row it was.
  The other tables are untouched.
\<close>

theorem expire_old_requests_exact:
  "length (requests (expire_old_requests now d)) = length (requests d) \<and>
   (\<forall>i < length (requests d).
      (r_status (requests d ! i) = Open \<and> r_expires_at (requests d ! i) \<le> now \<longrightarrow>
         r_status (requests (expire_old_requests now d) ! i) = Expired \<and>
         r_updated_at (requests (expire_old_requests now d) ! i) = now \<and>
         (requests (expire_old_requests now d) ! i)
            \<lparr>r_status := r_status (requests d ! i), r_updated_at := r_updated_at (requests d ! i)\<rparr>
           = requests d ! i) \<and>
      (\<not> (r_status (requests d ! i) = Open \<and> r_expires_at (requests d ! i) \<le> now) \<longrightarrow>
         requests (expire_old_requests now d) ! i = requests d ! i)) \<and>
   profiles (expire_old_requests now d) = profiles d \<and>
   claims (expire_old_requests now d) = claims d \<and>
   contact_requests (expire_old_requests now d) = contact_requests d \<and>
   auth_users (expire_old_requests now d) = auth_users d"
  by (simp add: expire_old_requests_def)

theorem expire_old_requests_exact_witness:
  "2 < length (requests example_db) \<and>
   r_status (requests example_db ! 2) = Open \<and> r_expires_at (requests example_db ! 2) \<le> 100 \<and>
   r_status (requests (expire_old_requests 100 example_db) ! 2) = Expired \<and>
   \<not> (r_status (requests example_db ! 0) = Open \<and> r_expires_at (requests example_db ! 0) \<le> 100) \<and>
   requests (expire_old_requests 100 example_db) ! 0 = requests example_db ! 0 \<and>
   \<not> (r_status (requests example_db ! 1) = Open \<and> r_expires_at (requests example_db ! 1) \<le> 100) \<and>
   requests (expire_old_requests 100 example_db) ! 1 = requests example_db ! 1"
proof -
  have l: "2 < length (requests example_db)" "0 < length (requests example_db)"
    "1 < length (requests example_db)"
    by (simp_all add: example_defs)
  have a: "r_status (requests example_db ! 2) = Open \<and> r_expires_at (requests example_db ! 2) \<le> 100"
    by (simp add: example_defs)
  have b: "\<not> (r_status (requests example_db ! 0) = Open \<and> r_expires_at (requests example_db ! 0) \<le> 100)"
    by (simp add: example_defs)
  have c: "\<not> (r_status (requests example_db ! 1) = Open \<and> r_expires_at (requests example_db ! 1) \<le> 100)"
    by (simp add: example_defs)
  from expire_old_requests_exact [of 100 example_db] l a b c show ?thesis
    by blast
qed

text \<open>
  C9. A request inserted with neither \<^verbatim>\<open>status\<close> nor \<^verbatim>\<open>expires_at\<close> in the payload is
  stored open, created at \<^verbatim>\<open>now()\<close> and expiring 24 hours (86400000000 microseconds)
  after its creation. \<^verbatim>\<open>RequestBloodDialog.onSubmit\<close> sends such a payload, and its insert
  succeeds for a user with a profile, a fresh id and a blood group of the enum.
\<close>

theorem new_request_defaults:
  "(\<forall>uid p row d'.
      insert_request uid now new_id p d = Inr (row, d') \<and> ri_status p = None \<and> ri_expires_at p = None \<longrightarrow>
        r_status row = Open \<and> r_created_at row = now \<and>
        r_expires_at row = r_created_at row + 86400000000 \<and> requests d' = requests d @ [row]) \<and>
   (distinct (map p_user_id (profiles d)) \<and> user_id \<in> set (map p_user_id (profiles d)) \<and>
    new_id \<notin> set (map r_id (requests d)) \<and> blood_group_in (bloodGroup f) \<noteq> None \<longrightarrow>
      (\<exists>row d'. RequestBloodDialog_onSubmit user_id now new_id f d = Inr (row, d') \<and>
         requests d' = requests d @ [row] \<and>
         r_status row = Open \<and> r_created_at row = now \<and> r_expires_at row = now + 86400000000))"
proof (intro conjI allI impI)
  fix uid p row d'
  assume a: "insert_request uid now new_id p d = Inr (row, d') \<and> ri_status p = None \<and> ri_expires_at p = None"
  from a insert_request_Inr [of uid now new_id p d row d']
  show "r_status row = Open" "r_created_at row = now"
    "r_expires_at row = r_created_at row + 86400000000" "requests d' = requests d @ [row]"
    by (simp_all add: status_or_default_def expires_at_or_default_def interval_24h)
next
  assume a: "distinct (map p_user_id (profiles d)) \<and> user_id \<in> set (map p_user_id (profiles d)) \<and>
    new_id \<notin> set (map r_id (requests d)) \<and> blood_group_in (bloodGroup f) \<noteq> None"
  then obtain bg where bg: "blood_group_in (bloodGroup f) = Some bg" by auto
  from a obtain dist where cd: "caller_district (Some user_id) (profiles d) = Inr dist"
    using caller_district_returns by blast
  from a obtain cbg where cb: "caller_blood_group (Some user_id) (profiles d) = Inr cbg"
    using caller_blood_group_returns by blast
  let ?row = "\<lparr>r_id = new_id, r_requester_id = user_id, r_blood_group = bg,
                      r_requester_name = requesterName f,
                      r_requester_phone = requesterPhone f,
                      r_district = district f, r_state = state f,
                      r_location_description = Some (locationDescription f),
                      r_message = Some (message f), r_status = Open,
                      r_expires_at = now + 86400000000,
                      r_created_at = now, r_updated_at = now\<rparr>"
  have pol: "is_true (requests_select_policy (Some user_id) now dist cbg ?row)"
    by (simp add: policy_is_where where_Some_iff)
  have "RequestBloodDialog_onSubmit user_id now new_id f d =
          Inr (?row, d\<lparr>requests := requests d @ [?row]\<rparr>)"
    using a pol
    by (simp add: RequestBloodDialog_onSubmit_def insert_request_def bg cd cb
        status_or_default_def expires_at_or_default_def interval_24h requests_insert_check_def
        Let_def)
  then show "\<exists>row d'. RequestBloodDialog_onSubmit user_id now new_id f d = Inr (row, d') \<and>
         requests d' = requests d @ [row] \<and>
         r_status row = Open \<and> r_created_at row = now \<and> r_expires_at row = now + 86400000000"
    by simp
qed

theorem new_request_defaults_witness:
  "distinct (map p_user_id (profiles example_db)) \<and>
   2 \<in> set (map p_user_id (profiles example_db)) \<and>
   14 \<notin> set (map r_id (requests example_db)) \<and>
   blood_group_in (bloodGroup example_form) \<noteq> None \<and>
   (\<exists>row d'. RequestBloodDialog_onSubmit 2 100 14 example_form example_db = Inr (row, d') \<and>
      r_status row = Open \<and> r_created_at row = 100 \<and> r_expires_at row = 86400000100 \<and>
      r_expires_at row = r_created_at row + 86400000000 \<and>
      requests d' = requests example_db @ [row])"
proof -
  have h: "distinct (map p_user_id (profiles example_db)) \<and>
   2 \<in> set (map p_user_id (profiles example_db)) \<and>
   14 \<notin> set (map r_id (requests example_db)) \<and>
   blood_group_in (bloodGroup example_form) \<noteq> None"
    by (simp add: example_defs example_form_def blood_group_in_def)
  note t = new_request_defaults [of 100 14 example_db 2 example_form]
  from t h obtain row d' where
    s: "RequestBloodDialog_onSubmit 2 100 14 example_form example_db = Inr (row, d')" and
    r: "requests d' = requests example_db @ [row]" "r_status row = Open" "r_created_at row = 100"
       "r_expires_at row = 100 + 86400000000"
    by blast
  let ?p = "\<lparr>ri_requester_id = 2, ri_blood_group = bloodGroup example_form,
        ri_requester_name = requesterName example_form,
        ri_requester_phone = requesterPhone example_form,
        ri_district = district example_form, ri_state = state example_form,
        ri_location_description = Some (locationDescription example_form),
        ri_message = Some (message example_form), ri_status = None, ri_expires_at = None\<rparr>"
  from s have "insert_request (Some 2) 100 14 ?p example_db = Inr (row, d')
      \<and> ri_status ?p = None \<and> ri_expires_at ?p = None"
    by (simp add: RequestBloodDialog_onSubmit_def)
  with t have e: "r_expires_at row = r_created_at row + 86400000000"
    by blast
  from r have e2: "r_expires_at row = 86400000100" by simp
  from h s r(1,2,3) e e2 show ?thesis
    by (intro conjI exI [of _ row] exI [of _ d']) simp_all
qed

text \<open>
  C5. The owner's cancellation as \<^verbatim>\<open>handleCancelRequest\<close> issues it, an update of the
  status to \<^verbatim>\<open>'cancelled'\<close>, does not go through: \<^verbatim>\<open>'cancelled'\<close> is not a label of
  \<^verbatim>\<open>request_status\<close>. When the caller owns a request with the given id that is open and
  unexpired, the row is touched, the text is read and the statement raises an error, so
  the request stays open. When the caller owns no such request, no row is touched and the
  database is returned as it was, without an error. In neither case does a request come
  to have the status cancelled.
\<close>

theorem cancel_request_rejected:
  assumes "distinct (map p_user_id (profiles d))"
  shows "request_status_in ''cancelled'' = None \<and>
         ((\<exists>r \<in> set (requests d). r_id r = requestId \<and> r_requester_id r = user_id \<and>
                                  r_status r = Open \<and> now < r_expires_at r) \<longrightarrow>
            handleCancelRequest user_id now requestId d = Inl InvalidTextRepresentation) \<and>
         (\<not> (\<exists>r \<in> set (requests d). r_id r = requestId \<and> r_requester_id r = user_id \<and>
                                    r_status r = Open \<and> now < r_expires_at r) \<longrightarrow>
            handleCancelRequest user_id now requestId d = Inr d)"
proof -
  from assms obtain dist where cd: "caller_district (Some user_id) (profiles d) = Inr dist"
    using caller_district_returns by blast
  from assms obtain cbg where cb: "caller_blood_group (Some user_id) (profiles d) = Inr cbg"
    using caller_blood_group_returns by blast
  have no_label: "request_status_in ''cancelled'' = None"
    by (simp add: request_status_in_def)
  have hit: "\<And>r dist cbg. (r_id r = requestId \<and> is_true (requests_select_policy (Some user_id) now dist cbg r)
                    \<and> is_true (requests_update_policy (Some user_id) r))
              = (r_id r = requestId \<and> r_requester_id r = user_id \<and> r_status r = Open \<and>
                 now < r_expires_at r)"
    by (auto simp: policy_is_where where_Some_iff requests_update_policy_def)
  have run: "handleCancelRequest user_id now requestId d =
      (if \<not> (\<exists>r \<in> set (requests d). r_id r = requestId \<and> r_requester_id r = user_id \<and>
                                      r_status r = Open \<and> now < r_expires_at r)
       then Inr d else Inl InvalidTextRepresentation)"
    unfolding handleCancelRequest_def update_request_status_def Let_def hit
    by (simp add: cd cb no_label)
  from no_label run show ?thesis by simp
qed

theorem cancel_request_rejected_witness:
  "distinct (map p_user_id (profiles example_db)) \<and>
   example_requests ! 0 \<in> set (requests example_db) \<and>
   r_id (example_requests ! 0) = 10 \<and> r_requester_id (example_requests ! 0) = 1 \<and>
   r_status (example_requests ! 0) = Open \<and> 100 < r_expires_at (example_requests ! 0) \<and>
   handleCancelRequest 1 100 10 example_db = Inl InvalidTextRepresentation \<and>
   handleCancelRequest 2 100 10 example_db = Inr example_db \<and>
   handleCancelRequest 1 100 11 example_db = Inr example_db"
proof -
  have h: "distinct (map p_user_id (profiles example_db))"
    by (simp add: example_defs)
  have r: "example_requests ! 0 \<in> set (requests example_db)"
    "r_id (example_requests ! 0) = 10" "r_requester_id (example_requests ! 0) = 1"
    "r_status (example_requests ! 0) = Open" "100 < r_expires_at (example_requests ! 0)"
    by (simp_all add: example_defs)
  then have owner: "\<exists>r \<in> set (requests example_db). r_id r = 10 \<and> r_requester_id r = 1 \<and>
                                  r_status r = Open \<and> 100 < r_expires_at r"
    by (intro bexI [of _ "example_requests ! 0"]) simp_all
  have other: "\<not> (\<exists>r \<in> set (requests example_db). r_id r = 10 \<and> r_requester_id r = 2 \<and>
                                  r_status r = Open \<and> 100 < r_expires_at r)"
    by (simp add: example_defs)
  have closed: "\<not> (\<exists>r \<in> set (requests example_db). r_id r = 11 \<and> r_requester_id r = 1 \<and>
                                  r_status r = Open \<and> 100 < r_expires_at r)"
    by (simp add: example_defs)
  from cancel_request_rejected [OF h, of 10 1 100] owner
  have a: "handleCancelRequest 1 100 10 example_db = Inl InvalidTextRepresentation"
    by (elim conjE) (erule (1) mp)
  from cancel_request_rejected [OF h, of 10 2 100] other
  have b: "handleCancelRequest 2 100 10 example_db = Inr example_db"
    by (elim conjE) (erule (1) mp)
  from cancel_request_rejected [OF h, of 11 1 100] closed
  have c: "handleCancelRequest 1 100 11 example_db = Inr example_db"
    by (elim conjE) (erule (1) mp)
  from h r a b c show ?thesis
    by (intro conjI) assumption+
qed

section \<open>Starting a contact request\<close>

text \<open>
  C6. Of the two ways to start a contact request only one is let through. User 2 offering
  to help on request 10 of user 1 (\<^verbatim>\<open>DonorContactRequestDialog\<close>, \<open>donor_id\<close> the caller)
  is refused by the insert policy, which asks for \<^verbatim>\<open>auth.uid() = requester_id\<close>; user 1
  inviting user 2 on the same request (\<^verbatim>\<open>ContactRequestDialog\<close>) is stored as pending.
\<close>

theorem donor_offer_rejected:
  "10 \<in> set (map r_id (requests example_db)) \<and>
   r_requester_id (example_requests ! 0) = 1 \<and>
   2 \<in> set (auth_users example_db) \<and> 1 \<in> set (auth_users example_db) \<and>
   21 \<notin> set (map cr_id (contact_requests example_db)) \<and>
   DonorContactRequestDialog_onSubmit (Some 2) 100 21 10 1 ''I can donate this evening'' example_db
     = Inl RowSecurityViolation \<and>
   (\<exists>d'. ContactRequestDialog_onSubmit (Some 1) 100 21 10 2 ''Please share your number'' example_db
            = Inr d' \<and>
          map (\<lambda>cr. (cr_id cr, cr_status cr)) (contact_requests d') = [(20, ''pending''), (21, ''pending'')])"
proof -
  have f: "10 \<in> set (map r_id (requests example_db))" "r_requester_id (example_requests ! 0) = 1"
    "2 \<in> set (auth_users example_db)" "1 \<in> set (auth_users example_db)"
    "21 \<notin> set (map cr_id (contact_requests example_db))"
    by (simp_all add: example_defs)
  have a: "DonorContactRequestDialog_onSubmit (Some 2) 100 21 10 1 ''I can donate this evening'' example_db
     = Inl RowSecurityViolation"
    by (rule donor_insert_denied) simp
  have b: "\<exists>d'. ContactRequestDialog_onSubmit (Some 1) 100 21 10 2 ''Please share your number'' example_db
            = Inr d' \<and>
          map (\<lambda>cr. (cr_id cr, cr_status cr)) (contact_requests d') = [(20, ''pending''), (21, ''pending'')]"
    unfolding requester_insert_stored [OF f(5) f(1) f(3) f(4)]
    by (simp add: example_defs)
  from f a b show ?thesis by (intro conjI) assumption+
qed

section \<open>Claims by the same donor\<close>

text \<open>
  C4. On the claims table as migration 20250925113624 leaves it, user 2 claims request 10
  twice and both inserts succeed: the table then holds two rows for the pair (10, 2). With
  the \<^verbatim>\<open>UNIQUE(request_id, donor_id)\<close> of the first migration the second insert is a
  unique violation.
\<close>

theorem duplicate_claim_accepted:
  "unique_request_donor (claims_ddl (recreate_claims example_db)) = False \<and>
   (\<exists>d1 d2.
      handleClaimRequest 2 100 30 10 (recreate_claims example_db) = Inr d1 \<and>
      handleClaimRequest 2 101 31 10 d1 = Inr d2 \<and>
      map (\<lambda>c. (c_id c, c_request_id c, c_donor_id c)) (claims d2) = [(30, 10, 2), (31, 10, 2)] \<and>
      handleClaimRequest 2 101 31 10 (d1\<lparr>claims_ddl := claims_schema_20250924025228\<rparr>)
        = Inl UniqueViolation)"
proof -
  let ?d1 = "(recreate_claims example_db)\<lparr>claims :=
               [\<lparr>c_id = 30, c_request_id = 10, c_donor_id = 2, c_claimed_at = 100\<rparr>]\<rparr>"
  let ?d2 = "?d1\<lparr>claims :=
               [\<lparr>c_id = 30, c_request_id = 10, c_donor_id = 2, c_claimed_at = 100\<rparr>,
                \<lparr>c_id = 31, c_request_id = 10, c_donor_id = 2, c_claimed_at = 101\<rparr>]\<rparr>"
  have u: "unique_request_donor (claims_ddl (recreate_claims example_db)) = False"
    by (simp add: claim_defs)
  have a: "handleClaimRequest 2 100 30 10 (recreate_claims example_db) = Inr ?d1"
    by (simp add: claim_defs example_defs)
  have b: "handleClaimRequest 2 101 31 10 ?d1 = Inr ?d2"
    by (simp add: claim_defs example_defs)
  have c: "map (\<lambda>c. (c_id c, c_request_id c, c_donor_id c)) (claims ?d2) = [(30, 10, 2), (31, 10, 2)]"
    by simp
  have e: "handleClaimRequest 2 101 31 10 (?d1\<lparr>claims_ddl := claims_schema_20250924025228\<rparr>)
        = Inl UniqueViolation"
    by (simp add: claim_defs example_defs)
  from u a b c e show ?thesis
    by (intro conjI exI [of _ ?d1] exI [of _ ?d2]) assumption+
qed

end
